theory Spec2Isabelle
  imports Main "HOL-Library.Word"
begin

section \<open>Python values and exceptions\<close>

text \<open>
  Every exception the modelled code can raise is a value. A function that may raise returns
  \<open>py_error + 'a\<close>; \<open>Inl\<close> carries the exception. \<open>DivisionByZero\<close> is the error of the
  field's own division (\<open>1 / x\<close> on a field element), \<open>ZeroDivisionError\<close> the one of Python's
  integer \<open>//\<close> and \<open>%\<close>.
\<close>

datatype py_error = TypeError | AssertionError | IndexError | ZeroDivisionError | DivisionByZero

definition bind_err :: "py_error + 'a \<Rightarrow> ('a \<Rightarrow> py_error + 'b) \<Rightarrow> py_error + 'b" where
  "bind_err m k = (case m of Inl e \<Rightarrow> Inl e | Inr v \<Rightarrow> k v)"

definition assert_that :: "bool \<Rightarrow> py_error + unit" where
  "assert_that b = (if b then Inr () else Inl AssertionError)"

text \<open>Python indexing \<open>xs[i]\<close> with a non-negative index; out of range raises IndexError.\<close>

definition get :: "'a list \<Rightarrow> nat \<Rightarrow> py_error + 'a" where
  "get xs i = (if i < length xs then Inr (xs ! i) else Inl IndexError)"

text \<open>\<open>[f(i) for i in range(n)]\<close> where \<open>f\<close> may raise: the first exception ends the loop.\<close>

fun map_err :: "('a \<Rightarrow> py_error + 'b) \<Rightarrow> 'a list \<Rightarrow> py_error + 'b list" where
  "map_err f [] = Inr []"
| "map_err f (x # xs) =
     (case f x of Inl e \<Rightarrow> Inl e
      | Inr y \<Rightarrow> (case map_err f xs of Inl e \<Rightarrow> Inl e | Inr ys \<Rightarrow> Inr (y # ys)))"

section \<open>Field elements (poly\_utils.py)\<close>

text \<open>
  The functions of \<open>poly_utils.py\<close> receive the field as an argument (\<open>field\<close>, a class such
  as \<open>IntegersModP(p)\<close>) and work on its elements through the overloaded operators
  \<open>+\<close>, \<open>-\<close>, \<open>*\<close>, \<open>/\<close> and \<open>==\<close>. The element type is therefore any type of HOL's class
  \<open>field\<close>; \<open>field(1)\<close> is \<open>1\<close> and \<open>field(0)\<close> is \<open>0\<close>. An element is falsy in a Python
  condition exactly when it is zero, as a number is.
\<close>

text \<open>
  Modelled from the spec: the field classes themselves (\<open>starks.modp\<close>) are not among the
  sources. Section 4.1 of the specification says that the inverse of zero is undefined and is
  rejected with a distinct error kind (\<open>DivisionByZero\<close>); \<open>field_div\<close> is the operator
  \<open>/\<close> with that error written out.
\<close>

definition field_div :: "'a::field \<Rightarrow> 'a \<Rightarrow> py_error + 'a" where
  "field_div a b = (if b = 0 then Inl DivisionByZero else Inr (a / b))"

subsection \<open>The integers modulo 7\<close>

text \<open>
  Modelled from the spec: \<open>IntegersModP(7)\<close>, the field of \<open>test_modpy.py\<close>, as a concrete
  instance. By section 3 of the specification an element is an integer in \<open>[0, 7)\<close> and
  every operation reduces modulo 7.
\<close>

typedef mod7 = "{0..<7 :: int}"
  by (rule exI [of _ 0]) simp

setup_lifting type_definition_mod7

instantiation mod7 :: field
begin

lift_definition zero_mod7 :: mod7 is 0
  by simp
lift_definition one_mod7 :: mod7 is 1
  by simp
lift_definition plus_mod7 :: "mod7 \<Rightarrow> mod7 \<Rightarrow> mod7" is "\<lambda>a b. (a + b) mod 7"
  by simp
lift_definition uminus_mod7 :: "mod7 \<Rightarrow> mod7" is "\<lambda>a. (- a) mod 7"
  by simp
lift_definition minus_mod7 :: "mod7 \<Rightarrow> mod7 \<Rightarrow> mod7" is "\<lambda>a b. (a - b) mod 7"
  by simp
lift_definition times_mod7 :: "mod7 \<Rightarrow> mod7 \<Rightarrow> mod7" is "\<lambda>a b. (a * b) mod 7"
  by simp
lift_definition inverse_mod7 :: "mod7 \<Rightarrow> mod7" is "\<lambda>a. (a ^ 5) mod 7"
  by simp
lift_definition divide_mod7 :: "mod7 \<Rightarrow> mod7 \<Rightarrow> mod7" is "\<lambda>a b. (a * b ^ 5) mod 7"
  by simp

instance
proof
  fix a b c :: mod7
  show "a * b * c = a * (b * c)" by transfer (simp add: mod_simps mult.assoc)
  show "a * b = b * a" by transfer (simp add: mult.commute)
  show "1 * a = a" by transfer simp
  show "a + b + c = a + (b + c)" by transfer (simp add: mod_simps add.assoc)
  show "a + b = b + a" by transfer (simp add: add.commute)
  show "0 + a = a" by transfer simp
  show "- a + a = 0" by transfer (simp add: mod_simps)
  show "a - b = a + - b" by transfer (simp add: mod_simps)
  show "(a + b) * c = a * c + b * c" by transfer (simp add: mod_simps distrib_right)
  show "(0::mod7) \<noteq> 1" by transfer simp
  show "a \<noteq> 0 \<Longrightarrow> inverse a * a = 1"
  proof transfer
    fix a :: int assume "a \<in> {0..<7}" "a \<noteq> 0"
    then have "a = 1 \<or> a = 2 \<or> a = 3 \<or> a = 4 \<or> a = 5 \<or> a = 6" by auto
    then show "a ^ 5 mod 7 * a mod 7 = 1" by auto
  qed
  show "a div b = a * inverse b" by transfer (simp add: mod_simps)
  show "inverse (0::mod7) = 0" by transfer simp
qed

end

section \<open>Batched inverse (poly\_utils.multi\_inv)\<close>

text \<open>
  \<^verbatim>\<open>
  partials = [field(1)]
  for val in values:
    if val == 0: mul_value = 1
    else:        mul_value = val
    partials.append(partials[-1] * mul_value)
  \<close>
\<close>

fun partials_loop :: "'a::field list \<Rightarrow> 'a list \<Rightarrow> 'a list" where
  "partials_loop partials [] = partials"
| "partials_loop partials (val # values) =
     (let mul_value = (if val = 0 then 1 else val)
      in partials_loop (partials @ [last partials * mul_value]) values)"

text \<open>
  \<^verbatim>\<open>
  for i in range(len(values), 0, -1):
    outputs[i - 1] = partials[i - 1] * inv if values[i - 1] else 0
    if values[i-1] != 0:
      inv = inv * values[i - 1]
  \<close>
  The counter of the model is \<open>i\<close>; the equation for \<open>Suc k\<close> is the iteration \<open>i = k + 1\<close>,
  which reads and writes index \<open>k\<close>. (\<open>inv\<close> is a constant of HOL, so the variable is \<open>inv'\<close>.)
\<close>

fun outputs_loop :: "'a::field list \<Rightarrow> 'a list \<Rightarrow> nat \<Rightarrow> 'a list \<Rightarrow> 'a \<Rightarrow> 'a list" where
  "outputs_loop values partials 0 outputs inv' = outputs"
| "outputs_loop values partials (Suc k) outputs inv' =
     outputs_loop values partials k
       (outputs[k := (if values ! k \<noteq> 0 then partials ! k * inv' else 0)])
       (if values ! k \<noteq> 0 then inv' * values ! k else inv')"

definition multi_inv :: "'a::field list \<Rightarrow> py_error + 'a list" where
  "multi_inv values =
     (let partials = partials_loop [1] values in
      if length partials \<noteq> length values + 1 then Inl AssertionError
      else case field_div 1 (last partials) of
             Inl e \<Rightarrow> Inl e
           | Inr inv' \<Rightarrow>
               Inr (outputs_loop values partials (length values)
                      (replicate (length values) 0) inv'))"

text \<open>
  The product of the first \<open>k\<close> multipliers of the forward loop, that is what the source
  keeps in \<open>partials[k]\<close>.
\<close>

definition partial_product :: "'a::field list \<Rightarrow> nat \<Rightarrow> 'a" where
  "partial_product vs k = prod_list (map (\<lambda>v. if v = 0 then 1 else v) (take k vs))"

section \<open>Polynomials and Lagrange interpolation (poly\_utils.py)\<close>

subsection \<open>The polynomial class\<close>

text \<open>
  Modelled from the spec: the class of univariate polynomials (\<open>starks.polynomial\<close>, the
  factory \<open>polysOver\<close>) is not among the sources. Section 4.2 of the specification: a
  polynomial is its coefficient sequence in ascending degree, with evaluation by Horner's
  rule and long division giving quotient and remainder. \<open>polysOver(cs)\<close> is the list \<open>cs\<close>,
  \<open>p.coefficients\<close> and \<open>len(p)\<close> are the list and its length, \<open>p(x)\<close> is \<open>poly_eval p x\<close> and
  \<open>p / d\<close> is \<open>poly_div p d\<close>.
\<close>

definition poly_eval :: "'a::field list \<Rightarrow> 'a \<Rightarrow> 'a" where
  "poly_eval p x = foldr (\<lambda>c acc. c + x * acc) p 0"

text \<open>
  Modelled from the spec: long division (section 4.2: quotient and remainder), from the
  leading coefficient of the dividend down. After the coefficients
  above \<open>c\<close> have been divided, with quotient \<open>q\<close> and remainder \<open>r\<close>, the running remainder is
  \<open>c + X r\<close>; when it has reached the length of the divisor, its leading coefficient divided
  by the divisor's is the next (lower) coefficient of the quotient, and that multiple of the
  divisor is subtracted. Dividing by the empty polynomial, or by one whose leading
  coefficient is zero, is a division by zero.
\<close>

fun poly_divmod :: "'a::field list \<Rightarrow> 'a list \<Rightarrow> py_error + ('a list \<times> 'a list)" where
  "poly_divmod [] d = Inr ([], [])"
| "poly_divmod (c # f) d =
     (case poly_divmod f d of
        Inl e \<Rightarrow> Inl e
      | Inr (q, r) \<Rightarrow>
          (let r1 = c # r in
           if length r1 < length d then Inr (q, r1)
           else (case field_div (last r1) (last d) of
                   Inl e \<Rightarrow> Inl e
                 | Inr b \<Rightarrow> Inr (b # q, butlast (map2 (\<lambda>u v. u - b * v) r1 d)))))"

text \<open>Modelled from the spec: the operator \<open>/\<close> of the class, the quotient of the division.\<close>

definition poly_div :: "'a::field list \<Rightarrow> 'a list \<Rightarrow> py_error + 'a list" where
  "poly_div p d =
     (if d = [] then Inl DivisionByZero
      else case poly_divmod p d of Inl e \<Rightarrow> Inl e | Inr (q, r) \<Rightarrow> Inr q)"

subsection \<open>zpoly\<close>

text \<open>
  \<^verbatim>\<open>
  root = [field(1)]
  for x in roots:
    root.insert(0, field(0))
    for j in range(len(root) - 1):
      root[j] -= root[j + 1] * x
  return polysOver(root)
  \<close>
  \<open>zpoly_step\<close> is one round of the outer loop; the inner loop updates the list in place,
  in ascending \<open>j\<close>.
\<close>

definition zpoly_step :: "'a::field list \<Rightarrow> 'a \<Rightarrow> 'a list" where
  "zpoly_step root x =
     foldl (\<lambda>r j. r[j := r ! j - r ! (j + 1) * x]) (0 # root) [0..<length (0 # root) - 1]"

definition zpoly :: "'a::field list \<Rightarrow> 'a list" where
  "zpoly roots = foldl zpoly_step [1] roots"

subsection \<open>lagrange\_interp\<close>

text \<open>
  The inner loop of the last part:
  \<^verbatim>\<open>
  for j in range(len(ys)):
    if num_coefficients[j] and ys[i]:
      b[j] += num_coefficients[j] * yslice
  \<close>
\<close>

fun add_scaled :: "'a::field list \<Rightarrow> 'a \<Rightarrow> 'a \<Rightarrow> nat list \<Rightarrow> 'a list \<Rightarrow> py_error + 'a list" where
  "add_scaled num_coefficients y yslice [] b = Inr b"
| "add_scaled num_coefficients y yslice (j # js) b =
     (case get num_coefficients j of
        Inl e \<Rightarrow> Inl e
      | Inr c \<Rightarrow>
          add_scaled num_coefficients y yslice js
            (if c \<noteq> 0 \<and> y \<noteq> 0 then b[j := b ! j + c * yslice] else b))"

text \<open>
  The outer loop:
  \<^verbatim>\<open>
  for i in range(len(xs)):
    yslice = ys[i] * invdenoms[i]
    num_coefficients = nums[i].coefficients
    for j in range(len(ys)): ...
  \<close>
\<close>

fun interp_loop ::
  "'a::field list \<Rightarrow> 'a list list \<Rightarrow> 'a list \<Rightarrow> nat list \<Rightarrow> 'a list \<Rightarrow> py_error + 'a list" where
  "interp_loop ys nums invdenoms [] b = Inr b"
| "interp_loop ys nums invdenoms (i # rest) b =
     bind_err (get ys i) (\<lambda>y.
     bind_err (get invdenoms i) (\<lambda>invdenom.
     let yslice = y * invdenom in
     bind_err (get nums i) (\<lambda>num_coefficients.
     bind_err (add_scaled num_coefficients y yslice [0..<length ys] b)
       (interp_loop ys nums invdenoms rest))))"

text \<open>
  \<^verbatim>\<open>
  root = zpoly(field, xs)
  assert len(root) == len(ys) + 1
  nums = [root / polysOver([-x, 1]) for x in xs]
  denoms = [nums[i](xs[i]) for i in range(len(xs))]
  invdenoms = multi_inv(field, denoms)
  b = [0 for y in ys]
  ...
  return polysOver(b)
  \<close>
\<close>

definition lagrange_interp :: "'a::field list \<Rightarrow> 'a list \<Rightarrow> py_error + 'a list" where
  "lagrange_interp xs ys =
     (let root = zpoly xs in
      bind_err (assert_that (length root = length ys + 1)) (\<lambda>_.
      bind_err (map_err (\<lambda>x. poly_div root [- x, 1]) xs) (\<lambda>nums.
      let denoms = map (\<lambda>i. poly_eval (nums ! i) (xs ! i)) [0..<length xs] in
      bind_err (multi_inv denoms) (\<lambda>invdenoms.
      interp_loop ys nums invdenoms [0..<length xs] (replicate (length ys) 0)))))"

subsection \<open>lagrange\_interp\_4 and lagrange\_interp\_2\<close>

text \<open>
  \<^verbatim>\<open>
  x01, x02, x03, x12, x13, x23 = \
      xs[0] * xs[1], xs[0] * xs[2], xs[0] * xs[3], xs[1] * xs[2], xs[1] * xs[3], xs[2] * xs[3]
  eq0 = polysOver([-x12 * xs[3], (x12 + x13 + x23), -xs[1] - xs[2] - xs[3], 1])
  eq1 = polysOver([-x02 * xs[3], (x02 + x03 + x23), -xs[0] - xs[2] - xs[3], 1])
  eq2 = polysOver([-x01 * xs[3], (x01 + x03 + x13), -xs[0] - xs[1] - xs[3], 1])
  eq3 = polysOver([-x01 * xs[2], (x01 + x02 + x12), -xs[0] - xs[1] - xs[2], 1])
  e0 = eq0(xs[0]); e1 = eq1(xs[1]); e2 = eq2(xs[2]); e3 = eq3(xs[3])
  e01 = e0 * e1
  e23 = e2 * e3
  invall = 1 / (e01 * e23)
  inv_y0 = ys[0] * invall * e1 * e23
  inv_y1 = ys[1] * invall * e0 * e23
  inv_y2 = ys[2] * invall * e01 * e3
  inv_y3 = ys[3] * invall * e01 * e2
  return polysOver([
      (eq0.coefficients[i] * inv_y0 + eq1.coefficients[i] * inv_y1
       + eq2.coefficients[i] * inv_y2 + eq3.coefficients[i] * inv_y3)
      for i in range(4)])
  \<close>
  The four reads of \<open>xs\<close> in the first line raise IndexError on a list shorter than four;
  afterwards \<open>xs ! k\<close> is in range.
\<close>

definition lagrange_interp_4 :: "'a::field list \<Rightarrow> 'a list \<Rightarrow> py_error + 'a list" where
  "lagrange_interp_4 xs ys =
     bind_err (get xs 0) (\<lambda>xs0.
     bind_err (get xs 1) (\<lambda>xs1.
     bind_err (get xs 2) (\<lambda>xs2.
     bind_err (get xs 3) (\<lambda>xs3.
     let x01 = xs0 * xs1; x02 = xs0 * xs2; x03 = xs0 * xs3;
         x12 = xs1 * xs2; x13 = xs1 * xs3; x23 = xs2 * xs3;
         eq0 = [- x12 * xs3, x12 + x13 + x23, - xs1 - xs2 - xs3, 1];
         eq1 = [- x02 * xs3, x02 + x03 + x23, - xs0 - xs2 - xs3, 1];
         eq2 = [- x01 * xs3, x01 + x03 + x13, - xs0 - xs1 - xs3, 1];
         eq3 = [- x01 * xs2, x01 + x02 + x12, - xs0 - xs1 - xs2, 1];
         e0 = poly_eval eq0 xs0; e1 = poly_eval eq1 xs1;
         e2 = poly_eval eq2 xs2; e3 = poly_eval eq3 xs3;
         e01 = e0 * e1;
         e23 = e2 * e3
     in
     bind_err (field_div 1 (e01 * e23)) (\<lambda>invall.
     bind_err (get ys 0) (\<lambda>ys0.
     let inv_y0 = ys0 * invall * e1 * e23 in
     bind_err (get ys 1) (\<lambda>ys1.
     let inv_y1 = ys1 * invall * e0 * e23 in
     bind_err (get ys 2) (\<lambda>ys2.
     let inv_y2 = ys2 * invall * e01 * e3 in
     bind_err (get ys 3) (\<lambda>ys3.
     let inv_y3 = ys3 * invall * e01 * e2 in
     Inr (map (\<lambda>i. eq0 ! i * inv_y0 + eq1 ! i * inv_y1 + eq2 ! i * inv_y2 + eq3 ! i * inv_y3)
            [0..<4]))))))))))"

text \<open>
  \<^verbatim>\<open>
  eq0 = polysOver([-xs[1], 1])
  eq1 = polysOver([-xs[0], 1])
  e0 = eq0(xs[0])
  e1 = eq1(xs[1])
  invall = 1/(e0 * e1)
  inv_y0 = ys[0] * invall * e1
  inv_y1 = ys[1] * invall * e0
  return polysOver([(eq0.coefficients[i] * inv_y0 + eq1.coefficients[i] * inv_y1)
                    for i in range(2)])
  \<close>
  Both arguments are lists (the branch for arguments that are polynomials is not taken).
\<close>

definition lagrange_interp_2 :: "'a::field list \<Rightarrow> 'a list \<Rightarrow> py_error + 'a list" where
  "lagrange_interp_2 xs ys =
     bind_err (get xs 1) (\<lambda>xs1.
     bind_err (get xs 0) (\<lambda>xs0.
     let eq0 = [- xs1, 1];
         eq1 = [- xs0, 1];
         e0 = poly_eval eq0 xs0;
         e1 = poly_eval eq1 xs1
     in
     bind_err (field_div 1 (e0 * e1)) (\<lambda>invall.
     bind_err (get ys 0) (\<lambda>ys0.
     let inv_y0 = ys0 * invall * e1 in
     bind_err (get ys 1) (\<lambda>ys1.
     let inv_y1 = ys1 * invall * e0 in
     Inr (map (\<lambda>i. eq0 ! i * inv_y0 + eq1 ! i * inv_y1) [0..<2]))))))"

text \<open>
  \<open>shift_sub prev root x\<close> is the coefficient list of \<open>prev + (X - x) \<cdot> root\<close>: what one
  round of \<open>zpoly\<close> leaves in \<open>root\<close> (with \<open>prev = 0\<close>), written without the in-place update.
\<close>

fun shift_sub :: "'a::field \<Rightarrow> 'a list \<Rightarrow> 'a \<Rightarrow> 'a list" where
  "shift_sub prev [] x = [prev]"
| "shift_sub prev (r # rs) x = (prev - r * x) # shift_sub r rs x"

section \<open>The execution trace of the AIR (air.get\_computational\_trace)\<close>

text \<open>
  \<^verbatim>\<open>
  computational_trace = [inp]
  for i in range(steps - 1):
    next_state = [step_polys[i](computational_trace[-1]) for i in range(width)]
    computational_trace.append(next_state)
  output = computational_trace[-1]
  return computational_trace, output
  \<close>
  A step polynomial is used only through its evaluation at a state, so it is a function from
  states to field elements (the class of multivariate polynomials is not among the sources).
  The comprehension has its own \<open>i\<close>; \<open>step_polys[i]\<close> raises IndexError when the list is
  shorter than \<open>width\<close>.
\<close>

definition air_next_state :: "int \<Rightarrow> ('a list \<Rightarrow> 'a) list \<Rightarrow> 'a list \<Rightarrow> py_error + 'a list" where
  "air_next_state width step_polys state =
     map_err (\<lambda>i. bind_err (get step_polys i) (\<lambda>poly. Inr (poly state))) [0..<nat width]"

fun air_trace_loop ::
  "nat \<Rightarrow> int \<Rightarrow> ('a list \<Rightarrow> 'a) list \<Rightarrow> 'a list list \<Rightarrow> py_error + 'a list list" where
  "air_trace_loop 0 width step_polys computational_trace = Inr computational_trace"
| "air_trace_loop (Suc n) width step_polys computational_trace =
     (case air_next_state width step_polys (last computational_trace) of
        Inl e \<Rightarrow> Inl e
      | Inr next_state \<Rightarrow>
          air_trace_loop n width step_polys (computational_trace @ [next_state]))"

definition air_get_computational_trace ::
  "'a list \<Rightarrow> int \<Rightarrow> int \<Rightarrow> ('a list \<Rightarrow> 'a) list \<Rightarrow> py_error + ('a list list \<times> 'a list)" where
  "air_get_computational_trace inp steps width step_polys =
     (case air_trace_loop (nat (steps - 1)) width step_polys [inp] of
        Inl e \<Rightarrow> Inl e
      | Inr computational_trace \<Rightarrow> Inr (computational_trace, last computational_trace))"

section \<open>The STARK prover and verifier (stark.py)\<close>

subsection \<open>Python integers, bytes and indexing\<close>

type_synonym bytes = "8 word list"

text \<open>\<open>int.from_bytes(bs, 'big')\<close>.\<close>

definition int_from_bytes_big :: "bytes \<Rightarrow> int" where
  "int_from_bytes_big bs = foldl (\<lambda>acc b. acc * 256 + uint b) 0 bs"

text \<open>
  Python's \<open>//\<close> and \<open>%\<close> on integers: floor division, the remainder has the sign of the
  divisor (as \<open>div\<close> and \<open>mod\<close> on \<open>int\<close>), and a zero divisor raises.
\<close>

definition floordiv :: "int \<Rightarrow> int \<Rightarrow> py_error + int" where
  "floordiv a b = (if b = 0 then Inl ZeroDivisionError else Inr (a div b))"

definition py_mod :: "int \<Rightarrow> int \<Rightarrow> py_error + int" where
  "py_mod a b = (if b = 0 then Inl ZeroDivisionError else Inr (a mod b))"

text \<open>
  \<open>xs[i]\<close> where \<open>i\<close> is any integer: \<open>-1\<close> is the last element, and an index outside
  \<open>[-len, len)\<close> raises IndexError.
\<close>

definition py_index :: "'a list \<Rightarrow> int \<Rightarrow> py_error + 'a" where
  "py_index xs i =
     (if 0 \<le> i \<and> i < int (length xs) then Inr (xs ! nat i)
      else if i < 0 \<and> - int (length xs) \<le> i then Inr (xs ! nat (int (length xs) + i))
      else Inl IndexError)"

text \<open>
  A state, or the value a step function returns: an integer or a list of integers.
  \<open>step_fn(f, state, constants)\<close> is the caller's function; it may raise.
\<close>

datatype pyval = PInt int | PList "int list"

type_synonym step_fn = "pyval \<Rightarrow> int list \<Rightarrow> py_error + pyval"

subsection \<open>Module constants\<close>

definition modulus :: int where
  "modulus = 2 ^ 256 - 2 ^ 32 * 351 + 1"

definition spot_check_security_factor :: int where
  "spot_check_security_factor = 80"

subsection \<open>Collaborators that are not among the sources\<close>

text \<open>
  \<open>f = PrimeField(modulus)\<close>: the class \<open>PrimeField\<close> is imported from \<open>poly_utils\<close> but not
  defined there. The object \<open>f\<close> is a record of its methods, a parameter of every function
  that uses it.
\<close>

record PrimeField =
  f_exp :: "int \<Rightarrow> int \<Rightarrow> int"
  f_div :: "int \<Rightarrow> int \<Rightarrow> py_error + int"
  f_eval_poly_at :: "pyval list \<Rightarrow> int \<Rightarrow> py_error + int"
  f_lagrange_interp_2 :: "int list \<Rightarrow> pyval list \<Rightarrow> py_error + int list"
  f_mul_polys :: "int list \<Rightarrow> int list \<Rightarrow> int list"

text \<open>
  The functions imported from \<open>starks.merkle_tree\<close>, \<open>starks.fft\<close>, \<open>starks.fri\<close> and
  \<open>starks.utils\<close>, likewise a record of parameters. A Merkle tree is the flat list of its
  nodes (the root is \<open>tree[1]\<close>), a branch a list of hashes. \<open>fft\<close> takes the values, the
  modulus, the root of unity and the flag \<open>inv\<close>; \<open>verify_branch_as_int\<close> is \<open>verify_branch\<close>
  called with \<open>output_as_int=True\<close>. The type \<open>'fri\<close> is that of a FRI proof.
\<close>

type_synonym branch = "bytes list"

record 'fri modules =
  blake :: "bytes \<Rightarrow> bytes"
  fft :: "pyval list \<Rightarrow> int \<Rightarrow> int \<Rightarrow> bool \<Rightarrow> py_error + pyval list"
  mk_branch :: "bytes list \<Rightarrow> int \<Rightarrow> branch"
  verify_branch :: "bytes \<Rightarrow> int \<Rightarrow> branch \<Rightarrow> py_error + bytes"
  verify_branch_as_int :: "bytes \<Rightarrow> int \<Rightarrow> branch \<Rightarrow> py_error + int"
  verify_low_degree_proof :: "bytes \<Rightarrow> int \<Rightarrow> 'fri \<Rightarrow> int \<Rightarrow> int \<Rightarrow> int \<Rightarrow> py_error + bool"
  get_power_cycle :: "int \<Rightarrow> int \<Rightarrow> int list"
  get_pseudorandom_indices :: "bytes \<Rightarrow> int \<Rightarrow> int \<Rightarrow> int \<Rightarrow> int list"
  is_a_power_of_2 :: "int \<Rightarrow> bool"

subsection \<open>The trace of a computation (stark.get\_computational\_trace)\<close>

text \<open>
  \<^verbatim>\<open>
  computational_trace = [inp]
  deg = len(constants)
  for i in range(steps - 1):
    poly_constants = [constants[d][i] for d in range(deg)]
    next_state = step_fn(f, computational_trace[-1], poly_constants)
    if isinstance(next_state, int):
      next_state = [next_state]
    computational_trace.append(next_state)
  output = computational_trace[-1]
  \<close>
\<close>

definition wrap_state :: "pyval \<Rightarrow> pyval" where
  "wrap_state v = (case v of PInt n \<Rightarrow> PList [n] | PList l \<Rightarrow> PList l)"

fun stark_trace_loop ::
  "step_fn \<Rightarrow> int list list \<Rightarrow> nat list \<Rightarrow> pyval list \<Rightarrow> py_error + pyval list" where
  "stark_trace_loop step constants [] computational_trace = Inr computational_trace"
| "stark_trace_loop step constants (i # rest) computational_trace =
     (case map_err (\<lambda>row. get row i) constants of
        Inl e \<Rightarrow> Inl e
      | Inr poly_constants \<Rightarrow>
          (case step (last computational_trace) poly_constants of
             Inl e \<Rightarrow> Inl e
           | Inr next_state \<Rightarrow>
               stark_trace_loop step constants rest
                 (computational_trace @ [wrap_state next_state])))"

definition stark_get_computational_trace ::
  "pyval \<Rightarrow> int \<Rightarrow> int list list \<Rightarrow> step_fn \<Rightarrow> py_error + (pyval list \<times> pyval)" where
  "stark_get_computational_trace inp steps constants step =
     (case stark_trace_loop step constants [0..<nat (steps - 1)] [inp] of
        Inl e \<Rightarrow> Inl e
      | Inr computational_trace \<Rightarrow> Inr (computational_trace, last computational_trace))"

subsection \<open>The classes Computation and StarkParams\<close>

record Computation =
  c_dims :: int
  c_inp :: pyval
  c_steps :: int
  c_constants :: "int list list"
  c_step_fn :: step_fn
  c_computational_trace :: "pyval list"
  c_output :: pyval

text \<open>
  \<^verbatim>\<open>
  def __init__(self, dims, inp, steps, constants, step_fn):
    self.dims = dims
    if isinstance(inp, int):
      inp = [inp]
    ...
    self.computational_trace, self.output = get_computational_trace(inp,
        steps, constants, step_fn)
  \<close>
\<close>

definition Computation_init ::
  "int \<Rightarrow> pyval \<Rightarrow> int \<Rightarrow> int list list \<Rightarrow> step_fn \<Rightarrow> py_error + Computation" where
  "Computation_init dims inp steps constants step =
     (case stark_get_computational_trace (wrap_state inp) steps constants step of
        Inl e \<Rightarrow> Inl e
      | Inr (computational_trace, output) \<Rightarrow>
          Inr \<lparr>c_dims = dims, c_inp = wrap_state inp, c_steps = steps,
               c_constants = constants, c_step_fn = step,
               c_computational_trace = computational_trace, c_output = output\<rparr>)"

text \<open>
  A call \<open>Computation(a1, ..., an)\<close> with positional arguments. Python binds them to the
  parameters \<open>dims, inp, steps, constants, step_fn\<close> of \<open>__init__\<close>, none of which has a
  default: any other number of arguments raises TypeError before the body runs. An argument
  of the wrong kind raises TypeError where the body uses it.
\<close>

datatype pyarg = AVal pyval | AConstants "int list list" | AStepFn step_fn

definition Computation_new :: "pyarg list \<Rightarrow> py_error + Computation" where
  "Computation_new args =
     (if length args \<noteq> 5 then Inl TypeError
      else case args of
             [AVal (PInt dims), AVal inp, AVal (PInt steps), AConstants constants, AStepFn step] \<Rightarrow>
               Computation_init dims inp steps constants step
           | _ \<Rightarrow> Inl TypeError)"

record StarkParams =
  p_modulus :: int
  p_extension_factor :: int
  p_precision :: int
  p_G2 :: int
  p_G1 :: int
  p_xs :: "int list"
  p_last_step_position :: int

text \<open>
  \<^verbatim>\<open>
  self.precision = comp.steps * extension_factor
  self.G2 = f.exp(7, (modulus - 1) // self.precision)
  self.G1 = f.exp(self.G2, extension_factor)
  self.xs = get_power_cycle(self.G2, modulus)
  self.last_step_position = self.xs[(comp.steps - 1) * extension_factor]
  \<close>
\<close>

definition StarkParams_init ::
  "'fri modules \<Rightarrow> PrimeField \<Rightarrow> Computation \<Rightarrow> int \<Rightarrow> int \<Rightarrow> py_error + StarkParams" where
  "StarkParams_init M F comp' modulus' extension_factor =
     (let precision = c_steps comp' * extension_factor in
      bind_err (floordiv (modulus' - 1) precision) (\<lambda>e.
      let G2 = f_exp F 7 e;
          G1 = f_exp F G2 extension_factor;
          xs = get_power_cycle M G2 modulus'
      in bind_err (py_index xs ((c_steps comp' - 1) * extension_factor)) (\<lambda>last_step_position.
         Inr \<lparr>p_modulus = modulus', p_extension_factor = extension_factor,
              p_precision = precision, p_G2 = G2, p_G1 = G1, p_xs = xs,
              p_last_step_position = last_step_position\<rparr>)))"

subsection \<open>The constraint polynomial (construct\_constraint\_polynomial)\<close>

text \<open>
  One round of the loop over \<open>d in range(deg)\<close>:
  \<^verbatim>\<open>
  deg_constants = [[constant] for constant in comp.constants[d]]
  skips2 = comp.steps // len(deg_constants)
  constants_mini_polynomial = fft(
      deg_constants, modulus, f.exp(params.G1, skips2), inv=True, dims=1)
  constants_mini_extension = fft(constants_mini_polynomial,
      modulus, f.exp(params.G2, skips2), dims=1)
  assert len(constants_mini_extension) == params.precision // skips2
  \<close>
  The result carries \<open>skips2\<close>, which the source reads again after the loop. (The
  assertion \<open>len(constants_extensions) == deg\<close> after the loop holds by construction.)
\<close>

definition constants_extension ::
  "'fri modules \<Rightarrow> PrimeField \<Rightarrow> Computation \<Rightarrow> StarkParams \<Rightarrow> int list
     \<Rightarrow> py_error + (int \<times> pyval list)" where
  "constants_extension M F comp' params row =
     (let deg_constants = map (\<lambda>constant. PList [constant]) row in
      bind_err (floordiv (c_steps comp') (int (length deg_constants))) (\<lambda>skips2.
      bind_err (fft M deg_constants modulus (f_exp F (p_G1 params) skips2) True)
        (\<lambda>constants_mini_polynomial.
      bind_err (fft M constants_mini_polynomial modulus (f_exp F (p_G2 params) skips2) False)
        (\<lambda>constants_mini_extension.
      bind_err (floordiv (p_precision params) skips2) (\<lambda>q.
      bind_err (assert_that (int (length constants_mini_extension) = q)) (\<lambda>_.
      Inr (skips2, constants_mini_extension)))))))"

text \<open>
  \<^verbatim>\<open>
  for extension in constants_extensions:
    assert len(extension) == params.precision // skips2
  \<close>
  with the \<open>skips2\<close> of the last round.
\<close>

definition check_extensions :: "StarkParams \<Rightarrow> (int \<times> pyval list) list \<Rightarrow> py_error + unit" where
  "check_extensions params exts =
     (if exts = [] then Inr ()
      else bind_err (floordiv (p_precision params) (fst (last exts))) (\<lambda>q.
           assert_that (list_all (\<lambda>ext. int (length (snd ext)) = q) exts)))"

text \<open>\<open>constants_extensions[d][i][0]\<close>: the entry is the one-element state that fft returns.\<close>

definition first_entry :: "pyval \<Rightarrow> py_error + int" where
  "first_entry v = (case v of PInt _ \<Rightarrow> Inl TypeError | PList l \<Rightarrow> get l 0)"

text \<open>
  \<open>step_p[dim]\<close> in the last comprehension. For \<open>comp.dims == 1\<close> the value of the step
  function has been wrapped, \<open>step_p = [val]\<close>, and \<open>dim\<close> is 0; \<open>val % modulus\<close> on a list
  raises TypeError. Otherwise \<open>step_p\<close> is the value itself, which must be a list.
\<close>

definition step_component :: "int \<Rightarrow> pyval \<Rightarrow> nat \<Rightarrow> py_error + int" where
  "step_component dims val dim =
     (if dims = 1 then (case val of PInt v \<Rightarrow> Inr v | PList _ \<Rightarrow> Inl TypeError)
      else (case val of PInt _ \<Rightarrow> Inl TypeError | PList l \<Rightarrow> get l dim))"

text \<open>
  \<open>[p_next[dim] - step_p[dim] % params.modulus for dim in range(comp.dims)]\<close>.
  In Python \<open>%\<close> binds tighter than \<open>-\<close>: only \<open>step_p[dim]\<close> is reduced.
\<close>

definition constraint_row :: "Computation \<Rightarrow> StarkParams \<Rightarrow> int list \<Rightarrow> pyval \<Rightarrow> py_error + int list" where
  "constraint_row comp' params p_next step_p =
     map_err (\<lambda>dim.
        bind_err (get p_next dim) (\<lambda>a.
        bind_err (step_component (c_dims comp') step_p dim) (\<lambda>b.
        bind_err (py_mod b (p_modulus params)) (\<lambda>r. Inr (a - r)))))
       [0..<nat (c_dims comp')]"

text \<open>
  \<^verbatim>\<open>
  p_next_step_evals = [p_evaluations[(i + params.extension_factor) % params.precision]
                       for i in range(params.precision)]
  step_p_evals = [comp.step_fn(
    f, p_evaluations[i], [constants_extensions[d][i][0] for d in range(deg)])
    for i in range(params.precision)]
  if comp.dims == 1:
    step_p_evals = [[val] for val in step_p_evals]
  c_of_p_evals = [[p_next[dim] - step_p[dim] % params.modulus for dim in range(comp.dims)]
                  for (p_next, step_p) in zip(p_next_step_evals, step_p_evals)]
  return c_of_p_evals
  \<close>
\<close>

definition construct_constraint_polynomial ::
  "'fri modules \<Rightarrow> PrimeField \<Rightarrow> Computation \<Rightarrow> StarkParams \<Rightarrow> int list list
     \<Rightarrow> py_error + int list list" where
  "construct_constraint_polynomial M F comp' params p_evaluations =
     bind_err (map_err (constants_extension M F comp' params) (c_constants comp'))
       (\<lambda>constants_extensions.
     bind_err (check_extensions params constants_extensions) (\<lambda>_.
     bind_err (map_err (\<lambda>i.
                 bind_err (py_mod (int i + p_extension_factor params) (p_precision params))
                   (py_index p_evaluations))
               [0..<nat (p_precision params)]) (\<lambda>p_next_step_evals.
     bind_err (map_err (\<lambda>i.
                 bind_err (get p_evaluations i) (\<lambda>state.
                 bind_err (map_err (\<lambda>ext. bind_err (get (snd ext) i) first_entry)
                             constants_extensions) (\<lambda>ks.
                 c_step_fn comp' (PList state) ks)))
               [0..<nat (p_precision params)]) (\<lambda>step_p_evals.
     map_err (\<lambda>(p_next, step_p). constraint_row comp' params p_next step_p)
       (zip p_next_step_evals step_p_evals)))))"

subsection \<open>Challenges and the linear combination\<close>

text \<open>
  \<open>k_t = int.from_bytes(blake(root + bytes([t])), 'big')\<close>, as the prover derives it from
  \<open>mtree[1]\<close> and the verifier from \<open>m_root\<close>.
\<close>

definition challenge :: "'fri modules \<Rightarrow> bytes \<Rightarrow> 8 word \<Rightarrow> int" where
  "challenge M root tag = int_from_bytes_big (blake M (root @ [tag]))"

text \<open>
  \<^verbatim>\<open>
  powers = [1]
  for i in range(1, params.precision):
    powers.append(powers[-1] * G2_to_the_steps % params.modulus)
  \<close>
\<close>

fun powers_loop :: "nat \<Rightarrow> int \<Rightarrow> int \<Rightarrow> int list \<Rightarrow> py_error + int list" where
  "powers_loop 0 g m powers = Inr powers"
| "powers_loop (Suc n) g m powers =
     (case py_mod (last powers * g) m of
        Inl e \<Rightarrow> Inl e
      | Inr v \<Rightarrow> powers_loop n g m (powers @ [v]))"

text \<open>One entry of \<open>l_evaluations\<close>; the sum is reduced by the module's \<open>modulus\<close>.\<close>

definition l_entry :: "int \<Rightarrow> int \<Rightarrow> int \<Rightarrow> int \<Rightarrow> int \<Rightarrow> int \<Rightarrow> int \<Rightarrow> int \<Rightarrow> int" where
  "l_entry d p b k1 k2 k3 k4 pw = (d + p * k1 + p * k2 * pw + b * k3 + b * pw * k4) mod modulus"

definition at2 :: "int list list \<Rightarrow> nat \<Rightarrow> nat \<Rightarrow> py_error + int" where
  "at2 rows i dim = bind_err (get rows i) (\<lambda>row. get row dim)"

definition compute_pseudorandom_linear_combination ::
  "'fri modules \<Rightarrow> PrimeField \<Rightarrow> Computation \<Rightarrow> StarkParams \<Rightarrow> bytes list
     \<Rightarrow> int list list \<Rightarrow> int list list \<Rightarrow> int list list \<Rightarrow> py_error + int list list" where
  "compute_pseudorandom_linear_combination M F comp' params mtree
       d_evaluations p_evaluations b_evaluations =
     bind_err (get mtree 1) (\<lambda>root.
     let k1 = challenge M root 1; k2 = challenge M root 2;
         k3 = challenge M root 3; k4 = challenge M root 4;
         G2_to_the_steps = f_exp F (p_G2 params) (c_steps comp')
     in bind_err (powers_loop (nat (p_precision params) - 1) G2_to_the_steps (p_modulus params) [1])
          (\<lambda>powers.
        map_err (\<lambda>dim.
          map_err (\<lambda>i.
            bind_err (at2 d_evaluations i dim) (\<lambda>d.
            bind_err (at2 p_evaluations i dim) (\<lambda>p.
            bind_err (get powers i) (\<lambda>pw.
            bind_err (at2 b_evaluations i dim) (\<lambda>b.
            Inr (l_entry d p b k1 k2 k3 k4 pw)))))) [0..<nat (p_precision params)])
          [0..<nat (c_dims comp')]))"

subsection \<open>Spot checks of the prover (compute\_merkle\_spot\_checks)\<close>

text \<open>
  \<^verbatim>\<open>
  for pos in positions:
    branches.append(mk_branch(mtree, pos))
    branches.append(mk_branch(mtree, (pos + params.extension_factor) % params.precision))
    branches.append(mk_branch(l_mtree, pos))
  \<close>
\<close>

fun spot_check_loop ::
  "'fri modules \<Rightarrow> bytes list \<Rightarrow> bytes list \<Rightarrow> StarkParams \<Rightarrow> int list \<Rightarrow> branch list
     \<Rightarrow> py_error + branch list" where
  "spot_check_loop M mtree l_mtree params [] branches = Inr branches"
| "spot_check_loop M mtree l_mtree params (pos # positions) branches =
     (case py_mod (pos + p_extension_factor params) (p_precision params) of
        Inl e \<Rightarrow> Inl e
      | Inr pos2 \<Rightarrow>
          spot_check_loop M mtree l_mtree params positions
            (branches @ [mk_branch M mtree pos, mk_branch M mtree pos2, mk_branch M l_mtree pos]))"

definition compute_merkle_spot_checks ::
  "'fri modules \<Rightarrow> bytes list \<Rightarrow> bytes list \<Rightarrow> Computation \<Rightarrow> StarkParams \<Rightarrow> py_error + branch list" where
  "compute_merkle_spot_checks M mtree l_mtree comp' params =
     (let samples = spot_check_security_factor in
      bind_err (get l_mtree 1) (\<lambda>l_root.
      let positions = get_pseudorandom_indices M l_root (p_precision params) samples
                        (p_extension_factor params)
      in spot_check_loop M mtree l_mtree params positions []))"

subsection \<open>The verifier at one sampled position (verify\_proof\_at\_position)\<close>

text \<open>The proof object \<open>[m_root, l_root, branches, fri_proof]\<close>.\<close>

record 'fri stark_proof =
  m_root :: bytes
  l_root :: bytes
  branches :: "branch list"
  fri_proof :: 'fri

text \<open>
  \<^verbatim>\<open>
  mbranch1 = verify_branch(m_root, pos, branches[i * 3])
  mbranch2 = verify_branch(m_root, (pos + params.extension_factor) % params.precision,
                            branches[i * 3 + 1])
  l_of_x = verify_branch(l_root, pos, branches[i * 3 + 2], output_as_int=True)
  \<close>
\<close>

definition verify_openings ::
  "'fri modules \<Rightarrow> StarkParams \<Rightarrow> 'fri stark_proof \<Rightarrow> nat \<Rightarrow> int
     \<Rightarrow> py_error + (bytes \<times> bytes \<times> int)" where
  "verify_openings M params proof i pos =
     bind_err (get (branches proof) (i * 3)) (\<lambda>br1.
     bind_err (verify_branch M (m_root proof) pos br1) (\<lambda>mbranch1.
     bind_err (py_mod (pos + p_extension_factor params) (p_precision params)) (\<lambda>pos2.
     bind_err (get (branches proof) (i * 3 + 1)) (\<lambda>br2.
     bind_err (verify_branch M (m_root proof) pos2 br2) (\<lambda>mbranch2.
     bind_err (get (branches proof) (i * 3 + 2)) (\<lambda>br3.
     bind_err (verify_branch_as_int M (l_root proof) pos br3) (\<lambda>l_of_x.
     Inr (mbranch1, mbranch2, l_of_x))))))))"

text \<open>
  The three assertions of the source, in its order. \<open>None\<close> is returned when all hold; a
  failed \<open>assert\<close> raises AssertionError.
  \<^verbatim>\<open>
  assert (p_of_g1x - comp.step_fn(f, p_of_x, k_of_xs) - zvalue * d_of_x) % modulus == 0
  assert (p_of_x - b_of_x * f.eval_poly_at(zeropoly2, x) - f.eval_poly_at(
      interpolant, x)) % modulus == 0
  assert (l_of_x - d_of_x - k1 * p_of_x - k2 * p_of_x * x_to_the_steps -
          k3 * b_of_x - k4 * b_of_x * x_to_the_steps) % modulus == 0
  \<close>
\<close>

text \<open>
  The left-hand sides of the three assertions: the transition constraint, the boundary
  constraint and the linear combination.
\<close>

definition transition_residue :: "int \<Rightarrow> int \<Rightarrow> int \<Rightarrow> int \<Rightarrow> int" where
  "transition_residue p_of_g1x step_of_p zvalue d_of_x =
     (p_of_g1x - step_of_p - zvalue * d_of_x) mod modulus"

definition boundary_residue :: "int \<Rightarrow> int \<Rightarrow> int \<Rightarrow> int \<Rightarrow> int" where
  "boundary_residue p_of_x b_of_x z2 i_of_x = (p_of_x - b_of_x * z2 - i_of_x) mod modulus"

definition combination_residue ::
  "int \<Rightarrow> int \<Rightarrow> int \<Rightarrow> int \<Rightarrow> int \<Rightarrow> int \<Rightarrow> int \<Rightarrow> int \<Rightarrow> int \<Rightarrow> int" where
  "combination_residue l_of_x d_of_x p_of_x b_of_x k1 k2 k3 k4 x_to_the_steps =
     (l_of_x - d_of_x - k1 * p_of_x - k2 * p_of_x * x_to_the_steps
      - k3 * b_of_x - k4 * b_of_x * x_to_the_steps) mod modulus"

definition verify_proof_at_position ::
  "'fri modules \<Rightarrow> PrimeField \<Rightarrow> Computation \<Rightarrow> StarkParams \<Rightarrow> 'fri stark_proof
     \<Rightarrow> int \<times> int \<times> int \<times> int \<Rightarrow> nat \<Rightarrow> int \<Rightarrow> pyval list list \<Rightarrow> py_error + unit" where
  "verify_proof_at_position M F comp' params proof ks i pos constants_polynomials =
     (case ks of (k1, k2, k3, k4) \<Rightarrow>
      let x = f_exp F (p_G2 params) pos;
          x_to_the_steps = f_exp F x (c_steps comp')
      in
      bind_err (verify_openings M params proof i pos) (\<lambda>(mbranch1, mbranch2, l_of_x).
      let p_of_x = int_from_bytes_big (take 32 mbranch1);
          p_of_g1x = int_from_bytes_big (take 32 mbranch2);
          d_of_x = int_from_bytes_big (take 32 (drop 32 mbranch1));
          b_of_x = int_from_bytes_big (drop 64 mbranch1)
      in
      bind_err (f_div F (f_exp F x (c_steps comp') - 1) (x - p_last_step_position params))
        (\<lambda>zvalue.
      bind_err (map_err (\<lambda>constants_mini_polynomial.
                  f_eval_poly_at F constants_mini_polynomial x) constants_polynomials)
        (\<lambda>k_of_xs.
      bind_err (c_step_fn comp' (PInt p_of_x) k_of_xs) (\<lambda>stepped.
      bind_err (case stepped of PInt v \<Rightarrow> Inr v | PList _ \<Rightarrow> Inl TypeError) (\<lambda>step_of_p.
      bind_err (assert_that (transition_residue p_of_g1x step_of_p zvalue d_of_x = 0)) (\<lambda>_.
      bind_err (f_lagrange_interp_2 F [1, p_last_step_position params]
                  [c_inp comp', c_output comp']) (\<lambda>interpolant.
      let zeropoly2 = f_mul_polys F [-1, 1] [- p_last_step_position params, 1] in
      bind_err (f_eval_poly_at F (map PInt zeropoly2) x) (\<lambda>z2.
      bind_err (f_eval_poly_at F (map PInt interpolant) x) (\<lambda>i_of_x.
      bind_err (assert_that (boundary_residue p_of_x b_of_x z2 i_of_x = 0)) (\<lambda>_.
      assert_that (combination_residue l_of_x d_of_x p_of_x b_of_x k1 k2 k3 k4 x_to_the_steps = 0)
      )))))))))))"

subsection \<open>The verifier (verify\_proof)\<close>

text \<open>
  One round of the loop over the constants:
  \<^verbatim>\<open>
  deg_constants = constants[d]
  constants_mini_polynomial = fft(
      deg_constants, modulus, f.exp(params.G2, params.extension_factor), inv=True)
  constants_mini_extension = fft(
      constants_mini_polynomial, modulus, params.G2)
  assert len(constants_mini_extension) == params.precision
  \<close>
\<close>

definition verifier_constants ::
  "'fri modules \<Rightarrow> PrimeField \<Rightarrow> StarkParams \<Rightarrow> int list \<Rightarrow> py_error + pyval list" where
  "verifier_constants M F params deg_constants =
     bind_err (fft M (map PInt deg_constants) modulus
                 (f_exp F (p_G2 params) (p_extension_factor params)) True)
       (\<lambda>constants_mini_polynomial.
     bind_err (fft M constants_mini_polynomial modulus (p_G2 params) False)
       (\<lambda>constants_mini_extension.
     bind_err (assert_that (int (length constants_mini_extension) = p_precision params)) (\<lambda>_.
     Inr constants_mini_polynomial)))"

text \<open>\<open>for i, pos in enumerate(positions): verify_proof_at_position(...)\<close>\<close>

fun positions_loop ::
  "'fri modules \<Rightarrow> PrimeField \<Rightarrow> Computation \<Rightarrow> StarkParams \<Rightarrow> 'fri stark_proof
     \<Rightarrow> int \<times> int \<times> int \<times> int \<Rightarrow> pyval list list \<Rightarrow> nat \<Rightarrow> int list \<Rightarrow> py_error + unit" where
  "positions_loop M F comp' params proof ks cps i [] = Inr ()"
| "positions_loop M F comp' params proof ks cps i (pos # positions) =
     (case verify_proof_at_position M F comp' params proof ks i pos cps of
        Inl e \<Rightarrow> Inl e
      | Inr _ \<Rightarrow> positions_loop M F comp' params proof ks cps (Suc i) positions)"

text \<open>
  The challenges and the sampled positions, as the verifier derives them from the two roots
  of the proof:
  \<^verbatim>\<open>
  k1 = int.from_bytes(blake(m_root + b'\x01'), 'big')   # k2, k3, k4 likewise
  ks = [k1, k2, k3, k4]
  samples = spot_check_security_factor
  positions = get_pseudorandom_indices(
      l_root, params.precision, samples,
      exclude_multiples_of=params.extension_factor)
  \<close>
\<close>

definition verifier_challenges :: "'fri modules \<Rightarrow> 'fri stark_proof \<Rightarrow> int \<times> int \<times> int \<times> int" where
  "verifier_challenges M proof =
     (challenge M (m_root proof) 1, challenge M (m_root proof) 2,
      challenge M (m_root proof) 3, challenge M (m_root proof) 4)"

definition sampled_positions :: "'fri modules \<Rightarrow> 'fri stark_proof \<Rightarrow> StarkParams \<Rightarrow> int list" where
  "sampled_positions M proof params =
     get_pseudorandom_indices M (l_root proof) (p_precision params) spot_check_security_factor
       (p_extension_factor params)"

text \<open>
  \<open>verify_proof\<close> from \<open>params = StarkParams(comp, modulus, extension_factor)\<close> to
  \<open>return True\<close>: everything the verifier does once it holds the computation \<open>comp\<close>.
  Every exit is an exception or the final \<open>return True\<close>.
\<close>

definition verify_proof_body ::
  "'fri modules \<Rightarrow> PrimeField \<Rightarrow> Computation \<Rightarrow> int \<Rightarrow> int list list \<Rightarrow> 'fri stark_proof
     \<Rightarrow> int \<Rightarrow> int \<Rightarrow> py_error + bool" where
  "verify_proof_body M F comp' steps constants proof constraint_degree extension_factor =
     bind_err (StarkParams_init M F comp' modulus extension_factor) (\<lambda>params.
     bind_err (assert_that (is_a_power_of_2 M steps)) (\<lambda>_.
     bind_err (get constants 0) (\<lambda>constants0.
     bind_err (assert_that (int (length constants0) \<le> steps)) (\<lambda>_.
     bind_err (map_err (verifier_constants M F params) constants) (\<lambda>constants_polynomials.
     bind_err (verify_low_degree_proof M (l_root proof) (p_G2 params) (fri_proof proof)
                 (steps * constraint_degree) modulus extension_factor) (\<lambda>fri_ok.
     bind_err (assert_that fri_ok) (\<lambda>_.
     bind_err (positions_loop M F comp' params proof (verifier_challenges M proof)
                 constants_polynomials 0 (sampled_positions M proof params)) (\<lambda>_.
     Inr True))))))))"

text \<open>
  \<open>verify_proof(inp, steps, constants, output, proof, step_fn, constraint_degree,
  extension_factor)\<close>:
  \<^verbatim>\<open>
  assert steps <= 2**32 // extension_factor
  m_root, l_root, branches, fri_proof = proof
  comp = Computation(inp, steps, constants, step_fn)
  \<close>
  and then the body above. The source builds the computation with four arguments.
\<close>

definition verify_proof ::
  "'fri modules \<Rightarrow> PrimeField \<Rightarrow> pyval \<Rightarrow> int \<Rightarrow> int list list \<Rightarrow> pyval \<Rightarrow> 'fri stark_proof
     \<Rightarrow> step_fn \<Rightarrow> int \<Rightarrow> int \<Rightarrow> py_error + bool" where
  "verify_proof M F inp steps constants output proof step constraint_degree extension_factor =
     bind_err (floordiv (2 ^ 32) extension_factor) (\<lambda>bound.
     bind_err (assert_that (steps \<le> bound)) (\<lambda>_.
     bind_err (Computation_new [AVal inp, AVal (PInt steps), AConstants constants, AStepFn step])
       (\<lambda>comp'.
     verify_proof_body M F comp' steps constants proof constraint_degree extension_factor)))"

text \<open>
  What the body has checked and computed when it reaches the FRI verification: the
  parameters, the two assertions on \<open>steps\<close> and \<open>constants[0]\<close>, and the polynomials of the
  constants.
\<close>

definition verifier_prelude ::
  "'fri modules \<Rightarrow> PrimeField \<Rightarrow> Computation \<Rightarrow> int \<Rightarrow> int list list \<Rightarrow> int \<Rightarrow> StarkParams
     \<Rightarrow> pyval list list \<Rightarrow> bool" where
  "verifier_prelude M F comp' steps constants extension_factor params constants_polynomials =
     (StarkParams_init M F comp' modulus extension_factor = Inr params \<and>
      is_a_power_of_2 M steps \<and>
      (\<exists>constants0. get constants 0 = Inr constants0 \<and> int (length constants0) \<le> steps) \<and>
      map_err (verifier_constants M F params) constants = Inr constants_polynomials)"

text \<open>
  What \<open>verify_proof_at_position\<close> has read and computed when it reaches its first
  assertion (the openings, \<open>zvalue\<close>, the constants at \<open>x\<close>, the step function at \<open>P(x)\<close>),
  and what it computes between the first and the second (the interpolant and the two
  evaluations).
\<close>

definition transition_inputs ::
  "'fri modules \<Rightarrow> PrimeField \<Rightarrow> Computation \<Rightarrow> StarkParams \<Rightarrow> 'fri stark_proof \<Rightarrow> nat \<Rightarrow> int
     \<Rightarrow> pyval list list \<Rightarrow> bytes \<Rightarrow> bytes \<Rightarrow> int \<Rightarrow> int \<Rightarrow> int list \<Rightarrow> int \<Rightarrow> bool" where
  "transition_inputs M F comp' params proof i pos constants_polynomials
       mbranch1 mbranch2 l_of_x zvalue k_of_xs step_of_p =
     (verify_openings M params proof i pos = Inr (mbranch1, mbranch2, l_of_x) \<and>
      f_div F (f_exp F (f_exp F (p_G2 params) pos) (c_steps comp') - 1)
        (f_exp F (p_G2 params) pos - p_last_step_position params) = Inr zvalue \<and>
      map_err (\<lambda>constants_mini_polynomial.
          f_eval_poly_at F constants_mini_polynomial (f_exp F (p_G2 params) pos))
        constants_polynomials = Inr k_of_xs \<and>
      c_step_fn comp' (PInt (int_from_bytes_big (take 32 mbranch1))) k_of_xs
        = Inr (PInt step_of_p))"

definition boundary_inputs ::
  "PrimeField \<Rightarrow> Computation \<Rightarrow> StarkParams \<Rightarrow> int \<Rightarrow> int \<Rightarrow> int list \<Rightarrow> int \<Rightarrow> bool" where
  "boundary_inputs F comp' params pos z2 interpolant i_of_x =
     (f_lagrange_interp_2 F [1, p_last_step_position params] [c_inp comp', c_output comp']
        = Inr interpolant \<and>
      f_eval_poly_at F (map PInt (f_mul_polys F [- 1, 1] [- p_last_step_position params, 1]))
        (f_exp F (p_G2 params) pos) = Inr z2 \<and>
      f_eval_poly_at F (map PInt interpolant) (f_exp F (p_G2 params) pos) = Inr i_of_x)"

subsection \<open>The prover (mk\_proof)\<close>

text \<open>
  \<^verbatim>\<open>
  assert steps <= 2**32 // extension_factor
  assert is_a_power_of_2(steps)
  for poly_constants in constants:
    assert len(poly_constants) <= steps
  comp = Computation(inp, steps, constants, step_fn)
  params = StarkParams(comp, modulus, extension_factor)
  ...
  \<close>
  The parameter \<open>pipeline\<close> is everything from \<open>StarkParams(...)\<close> to the \<open>return\<close>: the low-degree
  extension, the Merkle trees, the linear combination, the spot checks and the FRI proof.
  It runs on the computation that \<open>Computation(...)\<close> returns.
\<close>

definition mk_proof ::
  "'fri modules \<Rightarrow> (Computation \<Rightarrow> py_error + 'fri stark_proof) \<Rightarrow> pyval \<Rightarrow> int \<Rightarrow> int list list
     \<Rightarrow> step_fn \<Rightarrow> int \<Rightarrow> int \<Rightarrow> int \<Rightarrow> py_error + 'fri stark_proof" where
  "mk_proof M pipeline inp steps constants step constraint_degree dims extension_factor =
     bind_err (floordiv (2 ^ 32) extension_factor) (\<lambda>bound.
     bind_err (assert_that (steps \<le> bound)) (\<lambda>_.
     bind_err (assert_that (is_a_power_of_2 M steps)) (\<lambda>_.
     bind_err (assert_that (list_all (\<lambda>poly_constants. int (length poly_constants) \<le> steps)
                 constants)) (\<lambda>_.
     bind_err (Computation_new [AVal inp, AVal (PInt steps), AConstants constants, AStepFn step])
       pipeline))))"

subsection \<open>Concrete inputs\<close>

text \<open>
  The computation of scenario F of the specification cut to two steps (\<open>x \<mapsto> x + 1\<close> from
  input 0, width 1) with extension factor 2 over the default modulus: the trace is
  \<open>[[0], [1]]\<close>, the evaluation domain has 4 points, \<open>G2 = 7^((p-1)/4)\<close> and \<open>G1 = G2^2 = p - 1\<close>.
  \<open>tiny_p_evaluations\<close> are the values of the trace polynomial \<open>P(x) = (1 - x) / 2\<close> on the
  powers of \<open>G2\<close>, that is what \<open>construct_computation_polynomial\<close> hands on.
\<close>

definition step_plus_one :: step_fn where
  "step_plus_one state ks =
     (case state of PInt x \<Rightarrow> Inr (PInt ((x + 1) mod modulus))
      | PList l \<Rightarrow> (case l of [] \<Rightarrow> Inl IndexError | x # _ \<Rightarrow> Inr (PInt ((x + 1) mod modulus))))"

definition tiny_G2 :: int where
  "tiny_G2 = 35664211514789904982341603732416514445891155056868827430024383967081013093284"

definition tiny_comp :: Computation where
  "tiny_comp = \<lparr>c_dims = 1, c_inp = PList [0], c_steps = 2, c_constants = [],
                 c_step_fn = step_plus_one,
                 c_computational_trace = [PList [0], PList [1]], c_output = PList [1]\<rparr>"

definition tiny_params :: StarkParams where
  "tiny_params = \<lparr>p_modulus = modulus, p_extension_factor = 2, p_precision = 4,
                   p_G2 = tiny_G2, p_G1 = modulus - 1,
                   p_xs = [1, tiny_G2, modulus - 1, modulus - tiny_G2],
                   p_last_step_position = modulus - 1\<rparr>"

definition tiny_p_evaluations :: "int list list" where
  "tiny_p_evaluations =
     [[0],
      [40063938861263145220614690638135696703689414804385868304716600019662291512879],
      [1],
      [75728150376053050202956294370552211149580569861254695734740983986743304606163]]"

text \<open>
  An instance of the collaborators, to run the model on concrete inputs: the hash returns
  the digest of 32 bytes \<open>0xff\<close>, a branch is the leaf at the position, the index sampler
  returns \<open>count\<close> times the position 1, and \<open>fft\<close> returns its input.
\<close>

definition toy_modules :: "unit modules" where
  "toy_modules =
     \<lparr>blake = (\<lambda>msg. replicate 32 255),
      fft = (\<lambda>vals m root inv'. Inr vals),
      mk_branch = (\<lambda>tree pos. take 1 (drop (nat pos) tree)),
      verify_branch = (\<lambda>root pos br. case br of [] \<Rightarrow> Inl AssertionError | leaf # _ \<Rightarrow> Inr leaf),
      verify_branch_as_int = (\<lambda>root pos br.
         case br of [] \<Rightarrow> Inl AssertionError | leaf # _ \<Rightarrow> Inr (int_from_bytes_big leaf)),
      verify_low_degree_proof = (\<lambda>root g prf maxdeg m ex. Inr True),
      get_power_cycle = (\<lambda>g m. [1, g]),
      get_pseudorandom_indices = (\<lambda>seed m count ex. replicate (nat count) 1),
      is_a_power_of_2 = (\<lambda>n. n \<in> set (map (\<lambda>k. 2 ^ k) [0..<33]))\<rparr>"

definition toy_field :: PrimeField where
  "toy_field =
     \<lparr>f_exp = (\<lambda>x n. x ^ nat n mod modulus),
      f_div = (\<lambda>x y. if y mod modulus = 0 then Inl ZeroDivisionError else Inr 0),
      f_eval_poly_at = (\<lambda>poly x. Inr 0),
      f_lagrange_interp_2 = (\<lambda>xs ys. Inr [0, 0]),
      f_mul_polys = (\<lambda>a b. [0])\<rparr>"

text \<open>
  A proof object for one sampled position: the main-tree leaf at the position holds
  \<open>P = D = B = 0\<close>, the leaf one step later holds \<open>P = 1\<close>, and the leaf of the second tree
  holds \<open>L = 0\<close>.
\<close>

definition toy_proof :: "unit stark_proof" where
  "toy_proof =
     \<lparr>m_root = replicate 32 0, l_root = replicate 32 0,
      branches = [[replicate 96 0], [replicate 31 0 @ [1]], [[]]],
      fri_proof = ()\<rparr>"

text \<open>
  The verifier's three checks of lines 380 to 383, applied to three given branches: what
  \<open>verify_openings\<close> computes once it has read \<open>branches[3i]\<close>, \<open>branches[3i+1]\<close> and
  \<open>branches[3i+2]\<close>.
\<close>

definition check_three ::
  "'fri modules \<Rightarrow> StarkParams \<Rightarrow> bytes \<Rightarrow> bytes \<Rightarrow> int \<Rightarrow> branch \<Rightarrow> branch \<Rightarrow> branch
     \<Rightarrow> py_error + (bytes \<times> bytes \<times> int)" where
  "check_three M params mr lr pos br1 br2 br3 =
     bind_err (verify_branch M mr pos br1) (\<lambda>mbranch1.
     bind_err (verify_branch M mr ((pos + p_extension_factor params) mod p_precision params) br2)
       (\<lambda>mbranch2.
     bind_err (verify_branch_as_int M lr pos br3) (\<lambda>l_of_x.
     Inr (mbranch1, mbranch2, l_of_x))))"

text \<open>The three branches the prover appends for one position.\<close>

definition opened :: "'fri modules \<Rightarrow> bytes list \<Rightarrow> bytes list \<Rightarrow> StarkParams \<Rightarrow> int \<Rightarrow> branch list" where
  "opened M mtree l_mtree params pos =
     [mk_branch M mtree pos,
      mk_branch M mtree ((pos + p_extension_factor params) mod p_precision params),
      mk_branch M l_mtree pos]"

text \<open>A Merkle tree of two leaves, as the flat list of its nodes.\<close>

definition toy_tree :: "bytes list" where
  "toy_tree = [[], replicate 32 7, replicate 32 1, replicate 32 2]"


text \<open>
  MiMC (scenario B of the specification) on a state of width 1: the step
  \<open>x \<mapsto> x^3 + c\<close> with the round constant \<open>c\<close> of the step. The state is an integer
  (as \<open>verify_proof_at_position\<close> passes it) or a list of one integer (as the trace holds it).
\<close>

definition step_mimc :: step_fn where
  "step_mimc state ks =
     (case ks of
        [] \<Rightarrow> Inl IndexError
      | c # _ \<Rightarrow>
          (case state of
             PInt x \<Rightarrow> Inr (PInt ((x ^ 3 + c) mod modulus))
           | PList l \<Rightarrow> (case l of [] \<Rightarrow> Inl IndexError
                        | x # _ \<Rightarrow> Inr (PInt ((x ^ 3 + c) mod modulus)))))"

text \<open>
  A second instance of the collaborators, for the tiny computation above: \<open>f.exp\<close> knows the
  generator \<open>7^((p-1)/4)\<close> of the four-point domain, the power cycle of an element \<open>g\<close> of order
  four is \<open>[1, g, -1, -g]\<close>, the inverse transform returns its input and the forward one pads
  with zeros to the four points of the domain.
\<close>

definition tiny_field :: PrimeField where
  "tiny_field =
     toy_field\<lparr>f_exp := (\<lambda>x n. if x = 7 \<and> n = (modulus - 1) div 4 then tiny_G2
                             else x ^ nat n mod modulus)\<rparr>"

definition tiny_modules :: "unit modules" where
  "tiny_modules =
     toy_modules\<lparr>fft := (\<lambda>vals m root inv'.
                    if inv' then Inr vals else Inr (vals @ replicate (4 - length vals) (PInt 0))),
                 get_power_cycle := (\<lambda>g m. [1, g, m - 1, m - g])\<rparr>"

text \<open>
  The proof object with the three openings of \<open>toy_proof\<close> at each of the 80 sampled
  positions, and the same with a leaf \<open>L = 1\<close> in the second tree.
\<close>

definition tiny_proof :: "unit stark_proof" where
  "tiny_proof = toy_proof\<lparr>branches := concat (replicate 80 (branches toy_proof))\<rparr>"

definition bad_proof :: "unit stark_proof" where
  "bad_proof =
     toy_proof\<lparr>branches := concat (replicate 80 [[replicate 96 0], [replicate 31 0 @ [1]], [[1]]])\<rparr>"

text \<open>
  The same proof object with an empty first branch at each position, which \<open>verify_branch\<close>
  of the instance refuses, and the instance whose FRI verification answers \<open>False\<close>.
\<close>

definition torn_proof :: "unit stark_proof" where
  "torn_proof =
     toy_proof\<lparr>branches := concat (replicate 80 [[], [replicate 31 0 @ [1]], [[]]])\<rparr>"

definition rejecting_modules :: "unit modules" where
  "rejecting_modules =
     tiny_modules\<lparr>verify_low_degree_proof := (\<lambda>root g fri maxdeg m ex. Inr False)\<rparr>"

section \<open>Verified properties\<close>

subsection \<open>Batched inverse\<close>

lemma partial_product_0: "partial_product vs 0 = 1"
  by (simp add: partial_product_def)
lemma partial_product_Cons: "partial_product (v # vs) (Suc k) = (if v = 0 then 1 else v) * partial_product vs k"
  by (simp add: partial_product_def)
lemma partial_product_Suc: "k < length vs \<Longrightarrow> partial_product vs (Suc k) = partial_product vs k * (if vs ! k = 0 then 1 else vs ! k)"
  by (simp add: partial_product_def take_Suc_conv_app_nth)
lemma partial_product_nz: "partial_product vs k \<noteq> 0"
  by (auto simp add: partial_product_def prod_list_zero_iff)

lemma length_partials_loop: "length (partials_loop ps vs) = length ps + length vs"
  by (induction vs arbitrary: ps) (simp_all add: Let_def)

lemma partials_loop_prefix: "i < length ps \<Longrightarrow> partials_loop ps vs ! i = ps ! i"
  by (induction vs arbitrary: ps) (simp_all add: Let_def nth_append)

lemma last_is_nth: "length ps = Suc n \<Longrightarrow> last ps = ps ! n"
  using last_conv_nth [of ps] by (cases ps) auto

lemma partials_loop_nth_aux:
  "length ps = Suc n \<Longrightarrow> k \<le> length vs \<Longrightarrow> partials_loop ps vs ! (n + k) = last ps * partial_product vs k"
proof (induction vs arbitrary: ps n k)
  case Nil
  then show ?case by (simp add: partial_product_0 last_is_nth)
next
  case (Cons v vs)
  define c where "c = last ps * (if v = 0 then 1 else v)"
  have step: "partials_loop ps (v # vs) = partials_loop (ps @ [c]) vs"
    by (simp add: Let_def c_def)
  have len: "length (ps @ [c]) = Suc (Suc n)" using Cons.prems by simp
  show ?case
  proof (cases k)
    case 0
    have "partials_loop ps (v # vs) ! n = ps ! n"
      by (rule partials_loop_prefix) (use Cons.prems in simp)
    then show ?thesis using 0 Cons.prems by (simp add: partial_product_0 last_is_nth)
  next
    case (Suc j)
    have "partials_loop (ps @ [c]) vs ! (Suc n + j) = last (ps @ [c]) * partial_product vs j"
      by (rule Cons.IH [OF len]) (use Cons.prems Suc in simp)
    then show ?thesis using step Suc by (simp add: partial_product_Cons c_def mult.assoc)
  qed
qed

lemma partials_nth: "k \<le> length vs \<Longrightarrow> partials_loop [1] vs ! k = partial_product vs k"
  using partials_loop_nth_aux [of "[1]" 0 k vs] by simp

lemma partials_last: "last (partials_loop [1] vs) = partial_product vs (length vs)"
  using partials_nth [of "length vs" vs] last_is_nth [of "partials_loop [1] vs" "length vs"]
  by (simp add: length_partials_loop)

lemma length_outputs_loop: "length (outputs_loop vs ps k outs iv) = length outs"
  by (induction k arbitrary: outs iv) simp_all

lemma outputs_loop_nth:
  "k \<le> length vs \<Longrightarrow> length outs = length vs \<Longrightarrow> \<forall>j\<le>length vs. ps ! j = partial_product vs j \<Longrightarrow>
   iv * partial_product vs k = 1 \<Longrightarrow> j < length vs \<Longrightarrow>
   outputs_loop vs ps k outs iv ! j =
     (if j < k then (if vs ! j = 0 then 0 else inverse (vs ! j)) else outs ! j)"
proof (induction k arbitrary: outs iv)
  case 0
  then show ?case by simp
next
  case (Suc k)
  let ?outs = "outs[k := (if vs ! k \<noteq> 0 then ps ! k * iv else 0)]"
  let ?iv = "if vs ! k \<noteq> 0 then iv * vs ! k else iv"
  have k: "k < length vs" using Suc.prems by simp
  have psk: "ps ! k = partial_product vs k" using Suc.prems k by simp
  have inv_eq: "iv * (partial_product vs k * (if vs ! k = 0 then 1 else vs ! k)) = 1"
    using Suc.prems(4) partial_product_Suc [OF k] by simp
  have iv': "?iv * partial_product vs k = 1" using inv_eq by (simp add: mult_ac split: if_splits)
  have IH: "outputs_loop vs ps k ?outs ?iv ! j =
     (if j < k then (if vs ! j = 0 then 0 else inverse (vs ! j)) else ?outs ! j)"
    by (rule Suc.IH) (use Suc.prems k iv' in simp_all)
  have at_k: "vs ! k \<noteq> 0 \<Longrightarrow> partial_product vs k * iv = inverse (vs ! k)"
  proof -
    assume nz: "vs ! k \<noteq> 0"
    then have "(partial_product vs k * iv) * vs ! k = 1" using inv_eq by (simp add: mult_ac)
    then show ?thesis using nz by (simp add: field_simps)
  qed
  show ?case
  proof (cases "j = k")
    case True
    then show ?thesis using IH k Suc.prems(2) psk at_k by simp
  next
    case False
    then show ?thesis using IH by (auto simp: less_Suc_eq)
  qed
qed

lemma multi_inv_result:
  "multi_inv vs = Inr (map (\<lambda>v. if v = 0 then 0 else inverse v) vs)"
proof -
  let ?ps = "partials_loop [1] vs"
  let ?iv = "1 / last ?ps"
  have nz: "last ?ps \<noteq> 0" by (simp add: partials_last partial_product_nz)
  have eq: "multi_inv vs = Inr (outputs_loop vs ?ps (length vs) (replicate (length vs) 0) ?iv)"
    using nz by (simp add: multi_inv_def Let_def length_partials_loop field_div_def)
  have "outputs_loop vs ?ps (length vs) (replicate (length vs) 0) ?iv
        = map (\<lambda>v. if v = 0 then 0 else inverse v) vs"
  proof (rule nth_equalityI)
    show "length (outputs_loop vs ?ps (length vs) (replicate (length vs) 0) ?iv)
          = length (map (\<lambda>v. if v = 0 then 0 else inverse v) vs)"
      by (simp add: length_outputs_loop)
  next
    fix j assume "j < length (outputs_loop vs ?ps (length vs) (replicate (length vs) 0) ?iv)"
    then have j: "j < length vs" by (simp add: length_outputs_loop)
    have "outputs_loop vs ?ps (length vs) (replicate (length vs) 0) ?iv ! j =
       (if j < length vs then (if vs ! j = 0 then 0 else inverse (vs ! j))
        else replicate (length vs) 0 ! j)"
      by (rule outputs_loop_nth) (use j nz in \<open>simp_all add: partials_nth partials_last\<close>)
    then show "outputs_loop vs ?ps (length vs) (replicate (length vs) 0) ?iv ! j
               = map (\<lambda>v. if v = 0 then 0 else inverse v) vs ! j"
      using j by simp
  qed
  then show ?thesis using eq by simp
qed

text \<open>
  Claim C6. For a vector of field elements without a zero entry, \<open>multi_inv\<close> returns a
  vector of the same length whose \<open>i\<close>-th entry times the \<open>i\<close>-th input is 1.
\<close>

theorem multi_inv_inverts:
  assumes "\<forall>v \<in> set vs. v \<noteq> 0"
  shows "\<exists>out. multi_inv vs = Inr out \<and> length out = length vs \<and>
           (\<forall>i < length vs. out ! i * vs ! i = 1)"
  using assms by (simp add: multi_inv_result)

text \<open>
  Claim C10. \<open>multi_inv\<close> is total: on every vector, with or without zeros, it returns
  (it raises nothing) a vector of the same length; the \<open>i\<close>-th output is 0 exactly when the
  \<open>i\<close>-th input is 0 and is the inverse of the \<open>i\<close>-th input otherwise.
\<close>

theorem multi_inv_total:
  "\<exists>out. multi_inv vs = Inr out \<and> length out = length vs \<and>
     (\<forall>i < length vs. (out ! i = 0 \<longleftrightarrow> vs ! i = 0) \<and> (vs ! i \<noteq> 0 \<longrightarrow> out ! i * vs ! i = 1))"
  by (simp add: multi_inv_result)

text \<open>
  Claim C7, as amended. A vector with a zero entry is not rejected: the loop multiplies by 1
  in place of the zero, so the one division is by a non-zero product, and \<open>multi_inv\<close>
  returns a vector of the same length with 0 at every position where the input is 0.
  As stated (rejection with \<open>DivisionByZero\<close>) the claim fails already on the vector
  \<open>[0]\<close> over the integers modulo 7.
\<close>

theorem multi_inv_accepts_zero:
  assumes "0 \<in> set vs"
  shows "\<exists>out. multi_inv vs = Inr out \<and> length out = length vs \<and>
           (\<forall>i < length vs. vs ! i = 0 \<longrightarrow> out ! i = 0)"
  using assms by (simp add: multi_inv_result)

lemma two_mod7: "(2::mod7) = 1 + 1"
  by simp
lemma three_mod7: "(3::mod7) = 1 + 1 + 1"
  by simp
lemma five_mod7: "(5::mod7) = 1 + 1 + 1 + 1 + 1"
  by simp
lemma nz3: "(3::mod7) \<noteq> 0"
  unfolding three_mod7 by transfer simp
lemma nz5: "(5::mod7) \<noteq> 0"
  unfolding five_mod7 by transfer simp
lemma inv3: "inverse (3::mod7) = 5"
  unfolding three_mod7 five_mod7 by transfer simp

text \<open>The vector \<open>[0]\<close> is accepted: the result is \<open>[0]\<close>, not an error.\<close>

theorem multi_inv_rejects_zero_counterexample:
  "multi_inv [0 :: mod7] = Inr [0]"
  by (simp add: multi_inv_def field_div_def)

theorem multi_inv_accepts_zero_witness:
  "0 \<in> set [3, 0, 5 :: mod7] \<and>
   (\<exists>out. multi_inv [3, 0, 5 :: mod7] = Inr out \<and> length out = length [3, 0, 5 :: mod7] \<and>
           (\<forall>i < length [3, 0, 5 :: mod7]. [3, 0, 5 :: mod7] ! i = 0 \<longrightarrow> out ! i = 0))"
proof -
  have h: "0 \<in> set [3, 0, 5 :: mod7]" by simp
  show ?thesis using h multi_inv_accepts_zero [OF h] by blast
qed

theorem multi_inv_inverts_witness:
  "(3 :: mod7) \<noteq> 0 \<and> (5 :: mod7) \<noteq> 0 \<and>
   (\<exists>out. multi_inv [3, 5 :: mod7] = Inr out \<and> length out = 2 \<and>
           out ! 0 * 3 = 1 \<and> out ! 1 * 5 = 1)"
proof -
  have h: "\<forall>v \<in> set [3, 5 :: mod7]. v \<noteq> 0"
    by (simp add: nz3 nz5)
  obtain out where out: "multi_inv [3, 5 :: mod7] = Inr out" "length out = length [3, 5 :: mod7]"
    and each: "\<forall>i < length [3, 5 :: mod7]. out ! i * [3, 5 :: mod7] ! i = 1"
    using multi_inv_inverts [OF h] by blast
  have "out ! 0 * 3 = 1"
    using each [rule_format, of 0] by simp
  moreover have "out ! 1 * 5 = 1"
    using each [rule_format, of 1] by simp
  ultimately show ?thesis
    using out nz3 nz5 by simp
qed

theorem multi_inv_total_witness:
  "\<exists>out. multi_inv [3, 0, 5 :: mod7] = Inr out \<and> length out = 3 \<and>
     out ! 0 * 3 = 1 \<and> out ! 1 = 0 \<and> out ! 2 * 5 = 1"
proof -
  obtain out where out: "multi_inv [3, 0, 5 :: mod7] = Inr out" "length out = length [3, 0, 5 :: mod7]"
    and each: "\<forall>i < length [3, 0, 5 :: mod7]. (out ! i = 0 \<longleftrightarrow> [3, 0, 5 :: mod7] ! i = 0) \<and>
        ([3, 0, 5 :: mod7] ! i \<noteq> 0 \<longrightarrow> out ! i * [3, 0, 5 :: mod7] ! i = 1)"
    using multi_inv_total [of "[3, 0, 5 :: mod7]"] by blast
  have "out ! 0 * 3 = 1" using each [rule_format, of 0] nz3 by simp
  moreover have "out ! 1 = 0" using each [rule_format, of 1] by simp
  moreover have "out ! 2 * 5 = 1" using each [rule_format, of 2] nz5 by simp
  ultimately show ?thesis using out by simp
qed

subsection \<open>Execution trace\<close>

lemma map_err_Inr:
  "(\<And>x. x \<in> set xs \<Longrightarrow> f x = Inr (g x)) \<Longrightarrow> map_err f xs = Inr (map g xs)"
  by (induction xs) simp_all




lemma fib_trace_value:
  "air_get_computational_trace [0, 1 :: int] 5 2 [\<lambda>s. s ! 1, \<lambda>s. s ! 0 + s ! 1]
     = Inr ([[0, 1], [1, 1], [1, 2], [2, 3], [3, 5]], [3, 5])"
  by (simp add: air_get_computational_trace_def air_next_state_def get_def bind_err_def
        numeral_eq_Suc upt_rec)











subsection \<open>The prover and the constraint polynomial\<close>

lemma Computation_new_four: "Computation_new [a, b, c, d] = Inl TypeError"
  by (simp add: Computation_new_def)

lemma toy_power_of_2: "is_a_power_of_2 toy_modules 8"
proof -
  have "(8::int) = 2 ^ 3" by simp
  moreover have "(3::nat) \<in> set [0..<33]" by simp
  ultimately have "(8::int) \<in> (\<lambda>k. 2 ^ k) ` set [0..<33]" by (rule image_eqI)
  then show ?thesis by (simp add: toy_modules_def)
qed

text \<open>
  Claim C1 (completeness) fails on the code. \<open>mk_proof\<close> calls
  \<open>Computation(inp, steps, constants, step_fn)\<close> with four arguments where \<open>__init__\<close> takes five
  (\<open>dims\<close> is missing), so on every input it ends in an exception: ZeroDivisionError for
  \<open>extension_factor = 0\<close>, AssertionError when a parameter check fails, TypeError otherwise.
  No proof is returned that \<open>verify_proof\<close> could accept. On the Fibonacci computation of
  scenario A (input \<open>[0, 1]\<close>, 8 steps, extension factor 8) the exception is the TypeError.
\<close>

theorem mk_proof_raises:
  "(mk_proof M pipeline inp steps constants step constraint_degree dims extension_factor
      = Inl ZeroDivisionError \<or>
    mk_proof M pipeline inp steps constants step constraint_degree dims extension_factor
      = Inl AssertionError \<or>
    mk_proof M pipeline inp steps constants step constraint_degree dims extension_factor
      = Inl TypeError) \<and>
   mk_proof toy_modules pipeline (PList [0, 1]) 8 [] step 2 2 8 = Inl TypeError"
  using toy_power_of_2
  by (simp add: mk_proof_def bind_err_def floordiv_def assert_that_def Computation_new_four)

text \<open>
  Claim C3 fails on the code. In \<open>p_next[dim] - step_p[dim] % params.modulus\<close> only the
  subtrahend is reduced, so an entry of \<open>c_of_p_evals\<close> is negative whenever
  \<open>p_next[dim] < step_p[dim] mod p\<close>. On the two-step computation \<open>x \<mapsto> x + 1\<close> the entry at
  the last trace point is \<open>0 - 2 = -2\<close>.
\<close>

theorem constraint_entry_negative:
  "construct_constraint_polynomial M F tiny_comp tiny_params tiny_p_evaluations =
     Inr [[0],
          [35664211514789904982341603732416514445891155056868827430024383967081013093283],
          [- 2],
          [- 35664211514789904982341603732416514445891155056868827430024383967081013093285]]"
  by (simp add: construct_constraint_polynomial_def tiny_comp_def tiny_params_def
        tiny_p_evaluations_def check_extensions_def bind_err_def py_mod_def py_index_def
        get_def constraint_row_def step_component_def step_plus_one_def modulus_def
        numeral_eq_Suc upt_rec)

subsection \<open>Challenges\<close>

text \<open>
  A challenge is the digest read as a big-endian integer; neither side reduces it. The entry
  of \<open>l_evaluations\<close> and the residue of the linear-combination check are reduced modulo \<open>p\<close>
  and do not change when a challenge is replaced by its residue.
\<close>

lemma int_from_bytes_big_snoc:
  "int_from_bytes_big (bs @ [b]) = int_from_bytes_big bs * 256 + uint b"
  by (simp add: int_from_bytes_big_def)

lemma int_from_bytes_big_range:
  "0 \<le> int_from_bytes_big bs \<and> int_from_bytes_big bs < 256 ^ length bs"
proof (induction bs rule: rev_induct)
  case Nil
  show ?case by (simp add: int_from_bytes_big_def)
next
  case (snoc b bs)
  have b: "0 \<le> uint b" "uint b < 256"
    using uint_bounded [of b] by simp_all
  have "int_from_bytes_big bs + 1 \<le> 256 ^ length bs"
    using snoc by simp
  then have "(int_from_bytes_big bs + 1) * 256 \<le> 256 ^ length bs * 256"
    by (rule mult_right_mono) simp
  then show ?case
    using snoc b by (simp add: int_from_bytes_big_snoc algebra_simps)
qed

lemma l_entry_mod:
  "l_entry d p b k1 k2 k3 k4 pw =
   l_entry d p b (k1 mod modulus) (k2 mod modulus) (k3 mod modulus) (k4 mod modulus) pw"
  unfolding l_entry_def
  by (intro mod_add_cong mod_mult_cong refl) simp_all

lemma combination_residue_mod:
  "combination_residue l d p b k1 k2 k3 k4 x =
   combination_residue l d p b (k1 mod modulus) (k2 mod modulus) (k3 mod modulus) (k4 mod modulus) x"
  unfolding combination_residue_def
  by (intro mod_diff_cong mod_mult_cong refl) simp_all

lemma modulus_pos: "0 < modulus"
  by (simp add: modulus_def)

subsection \<open>Openings\<close>

lemma spot_check_loop_eq:
  "p_precision params \<noteq> 0 \<Longrightarrow>
   spot_check_loop M mtree l_mtree params positions acc =
     Inr (acc @ concat (map (opened M mtree l_mtree params) positions))"
  by (induction positions arbitrary: acc) (simp_all add: py_mod_def opened_def)

lemma length_concat_opened:
  "length (concat (map (opened M mtree l_mtree params) positions)) = 3 * length positions"
  by (induction positions) (simp_all add: opened_def)

lemma concat_opened_nth:
  "i < length positions \<Longrightarrow> j < 3 \<Longrightarrow>
   concat (map (opened M mtree l_mtree params) positions) ! (i * 3 + j)
     = opened M mtree l_mtree params (positions ! i) ! j"
proof (induction positions arbitrary: i)
  case Nil
  then show ?case by simp
next
  case (Cons pos positions)
  have len: "length (opened M mtree l_mtree params pos) = 3"
    by (simp add: opened_def)
  show ?case
  proof (cases i)
    case 0
    then show ?thesis using Cons.prems len by (simp add: nth_append)
  next
    case (Suc k)
    then have "concat (map (opened M mtree l_mtree params) (pos # positions)) ! (i * 3 + j)
       = concat (map (opened M mtree l_mtree params) positions) ! (k * 3 + j)"
      using len by (simp add: nth_append)
    then show ?thesis using Cons.IH [of k] Cons.prems Suc by simp
  qed
qed

lemma verify_openings_read:
  assumes "i * 3 + 2 < length brs"
    and "p_precision params \<noteq> 0"
  shows "verify_openings M params \<lparr>m_root = mr, l_root = lr, branches = brs, fri_proof = fp\<rparr> i pos
         = check_three M params mr lr pos (brs ! (i * 3)) (brs ! (i * 3 + 1)) (brs ! (i * 3 + 2))"
  using assms
  by (simp add: verify_openings_def check_three_def get_def py_mod_def bind_err_def
        split: sum.splits)

text \<open>
  Claim C9. When the index sampler returns \<open>spot_check_security_factor\<close> positions, the
  prover's list of openings has length \<open>3 \<cdot> spot_check_security_factor\<close>; for the \<open>i\<close>-th
  position \<open>pos\<close> its entries \<open>3i\<close>, \<open>3i+1\<close>, \<open>3i+2\<close> are the main-tree branch at \<open>pos\<close>, the
  main-tree branch at \<open>(pos + extension_factor) mod precision\<close> and the L-tree branch at
  \<open>pos\<close>; and the verifier, reading \<open>branches[3i]\<close>, \<open>branches[3i+1]\<close>, \<open>branches[3i+2]\<close> at
  that position, checks exactly these three branches.
\<close>

theorem openings_layout:
  assumes "get l_mtree 1 = Inr root"
    and "p_precision params \<noteq> 0"
    and "positions = get_pseudorandom_indices M root (p_precision params)
                       spot_check_security_factor (p_extension_factor params)"
    and "int (length positions) = spot_check_security_factor"
  shows "\<exists>brs. compute_merkle_spot_checks M mtree l_mtree comp' params = Inr brs \<and>
           int (length brs) = 3 * spot_check_security_factor \<and>
           (\<forall>i < length positions.
              brs ! (i * 3) = mk_branch M mtree (positions ! i) \<and>
              brs ! (i * 3 + 1) = mk_branch M mtree
                 ((positions ! i + p_extension_factor params) mod p_precision params) \<and>
              brs ! (i * 3 + 2) = mk_branch M l_mtree (positions ! i) \<and>
              verify_openings M params
                  \<lparr>m_root = mr, l_root = lr, branches = brs, fri_proof = fp\<rparr> i (positions ! i)
                = check_three M params mr lr (positions ! i)
                    (mk_branch M mtree (positions ! i))
                    (mk_branch M mtree
                       ((positions ! i + p_extension_factor params) mod p_precision params))
                    (mk_branch M l_mtree (positions ! i)))"
proof -
  let ?brs = "concat (map (opened M mtree l_mtree params) positions)"
  have run: "compute_merkle_spot_checks M mtree l_mtree comp' params = Inr ?brs"
    using assms(1,3) spot_check_loop_eq [OF assms(2), of M mtree l_mtree positions "[]"]
    by (simp add: compute_merkle_spot_checks_def bind_err_def)
  have len: "length ?brs = 3 * length positions"
    by (rule length_concat_opened)
  have each: "\<And>i j. i < length positions \<Longrightarrow> j < 3 \<Longrightarrow>
      ?brs ! (i * 3 + j) = opened M mtree l_mtree params (positions ! i) ! j"
    by (rule concat_opened_nth)
  have body: "\<forall>i < length positions.
              ?brs ! (i * 3) = mk_branch M mtree (positions ! i) \<and>
              ?brs ! (i * 3 + 1) = mk_branch M mtree
                 ((positions ! i + p_extension_factor params) mod p_precision params) \<and>
              ?brs ! (i * 3 + 2) = mk_branch M l_mtree (positions ! i) \<and>
              verify_openings M params
                  \<lparr>m_root = mr, l_root = lr, branches = ?brs, fri_proof = fp\<rparr> i (positions ! i)
                = check_three M params mr lr (positions ! i)
                    (mk_branch M mtree (positions ! i))
                    (mk_branch M mtree
                       ((positions ! i + p_extension_factor params) mod p_precision params))
                    (mk_branch M l_mtree (positions ! i))"
  proof (intro allI impI)
    fix i assume i: "i < length positions"
    have b0: "?brs ! (i * 3) = mk_branch M mtree (positions ! i)"
      using each [OF i, of 0] by (simp add: opened_def)
    have b1: "?brs ! (i * 3 + 1) = mk_branch M mtree
                 ((positions ! i + p_extension_factor params) mod p_precision params)"
      using each [OF i, of 1] by (simp add: opened_def)
    have b2: "?brs ! (i * 3 + 2) = mk_branch M l_mtree (positions ! i)"
      using each [OF i, of 2] by (simp add: opened_def)
    have in_range: "i * 3 + 2 < length ?brs"
      using i len by simp
    show "?brs ! (i * 3) = mk_branch M mtree (positions ! i) \<and>
              ?brs ! (i * 3 + 1) = mk_branch M mtree
                 ((positions ! i + p_extension_factor params) mod p_precision params) \<and>
              ?brs ! (i * 3 + 2) = mk_branch M l_mtree (positions ! i) \<and>
              verify_openings M params
                  \<lparr>m_root = mr, l_root = lr, branches = ?brs, fri_proof = fp\<rparr> i (positions ! i)
                = check_three M params mr lr (positions ! i)
                    (mk_branch M mtree (positions ! i))
                    (mk_branch M mtree
                       ((positions ! i + p_extension_factor params) mod p_precision params))
                    (mk_branch M l_mtree (positions ! i))"
      using b0 b1 b2 verify_openings_read [OF in_range assms(2), of M mr lr fp "positions ! i"]
      by simp
  qed
  have "int (length ?brs) = 3 * spot_check_security_factor"
    using len assms(4) by simp
  then show ?thesis using run body by blast
qed

theorem openings_layout_witness:
  "get toy_tree 1 = Inr (replicate 32 7) \<and> p_precision tiny_params \<noteq> 0 \<and>
   replicate 80 1 = get_pseudorandom_indices toy_modules (replicate 32 7) (p_precision tiny_params)
      spot_check_security_factor (p_extension_factor tiny_params) \<and>
   int (length (replicate 80 (1 :: int))) = spot_check_security_factor \<and>
   (\<exists>brs. compute_merkle_spot_checks toy_modules toy_tree toy_tree tiny_comp tiny_params = Inr brs \<and>
      int (length brs) = 240 \<and>
      brs ! 0 = mk_branch toy_modules toy_tree 1 \<and>
      brs ! 1 = mk_branch toy_modules toy_tree 3 \<and>
      brs ! 2 = mk_branch toy_modules toy_tree 1 \<and>
      brs ! 237 = mk_branch toy_modules toy_tree 1 \<and>
      brs ! 238 = mk_branch toy_modules toy_tree 3 \<and>
      brs ! 239 = mk_branch toy_modules toy_tree 1)"
proof -
  have h1: "get toy_tree 1 = Inr (replicate 32 7)"
    by (simp add: get_def toy_tree_def)
  have h2: "p_precision tiny_params \<noteq> 0"
    by (simp add: tiny_params_def)
  have h3: "replicate 80 1 = get_pseudorandom_indices toy_modules (replicate 32 7)
      (p_precision tiny_params) spot_check_security_factor (p_extension_factor tiny_params)"
    by (simp add: toy_modules_def spot_check_security_factor_def)
  have h4: "int (length (replicate 80 (1 :: int))) = spot_check_security_factor"
    by (simp add: spot_check_security_factor_def)
  obtain brs where run: "compute_merkle_spot_checks toy_modules toy_tree toy_tree tiny_comp tiny_params = Inr brs"
    and len: "int (length brs) = 3 * spot_check_security_factor"
    and each: "\<forall>i < length (replicate 80 (1 :: int)).
        brs ! (i * 3) = mk_branch toy_modules toy_tree (replicate 80 1 ! i) \<and>
        brs ! (i * 3 + 1) = mk_branch toy_modules toy_tree
          ((replicate 80 1 ! i + p_extension_factor tiny_params) mod p_precision tiny_params) \<and>
        brs ! (i * 3 + 2) = mk_branch toy_modules toy_tree (replicate 80 1 ! i)"
    using openings_layout [OF h1 h2 h3 h4, of toy_tree tiny_comp] by blast
  have first: "brs ! 0 = mk_branch toy_modules toy_tree 1 \<and>
      brs ! 1 = mk_branch toy_modules toy_tree 3 \<and> brs ! 2 = mk_branch toy_modules toy_tree 1"
    using each [rule_format, of 0] by (simp add: tiny_params_def numeral_2_eq_2)
  have last: "brs ! 237 = mk_branch toy_modules toy_tree 1 \<and>
      brs ! 238 = mk_branch toy_modules toy_tree 3 \<and> brs ! 239 = mk_branch toy_modules toy_tree 1"
    using each [rule_format, of 79] by (simp add: tiny_params_def)
  show ?thesis
    using h1 h2 h3 h4 run len first last by (simp add: spot_check_security_factor_def)
qed

subsection \<open>The verifier\<close>

text \<open>
  Every exit of the verifier is an exception or the final \<open>return True\<close>; the loop over the
  sampled positions stops at the first position that raises.
\<close>

lemma bind_err_not_False:
  "(\<And>v. k v \<noteq> Inr False) \<Longrightarrow> bind_err m k \<noteq> Inr False"
  by (cases m) (simp_all add: bind_err_def)

lemma bind_err_InrD:
  "bind_err m k = Inr r \<Longrightarrow> \<exists>v. m = Inr v \<and> k v = Inr r"
  by (cases m) (simp_all add: bind_err_def)

lemma assert_that_InrD: "assert_that c = Inr u \<Longrightarrow> c"
  by (simp add: assert_that_def split: if_splits)

lemma verify_proof_body_not_False:
  "verify_proof_body M F comp' steps constants prf constraint_degree extension_factor
     \<noteq> Inr False"
  unfolding verify_proof_body_def
  by (intro bind_err_not_False) simp

lemma verify_proof_not_False:
  "verify_proof M F inp steps constants output prf step constraint_degree extension_factor
     \<noteq> Inr False"
  unfolding verify_proof_def
  by (intro bind_err_not_False) (rule verify_proof_body_not_False)

lemma verify_proof_bound:
  "extension_factor \<noteq> 0 \<Longrightarrow> 2 ^ 32 div extension_factor < steps \<Longrightarrow>
   verify_proof M F inp steps constants output prf step constraint_degree extension_factor
     = Inl AssertionError"
  by (simp add: verify_proof_def bind_err_def floordiv_def assert_that_def)

lemma positions_loop_all:
  "positions_loop M F comp' params prf ks cps i positions = Inr () \<longleftrightarrow>
   (\<forall>j < length positions.
      verify_proof_at_position M F comp' params prf ks (i + j) (positions ! j) cps = Inr ())"
proof (induction positions arbitrary: i)
  case Nil
  show ?case by simp
next
  case (Cons pos positions)
  show ?case
  proof (cases "verify_proof_at_position M F comp' params prf ks i pos cps")
    case (Inl e)
    then show ?thesis by auto
  next
    case (Inr u)
    have "(\<forall>j < length (pos # positions).
        verify_proof_at_position M F comp' params prf ks (i + j) ((pos # positions) ! j) cps = Inr ())
      \<longleftrightarrow> (\<forall>j < length positions.
        verify_proof_at_position M F comp' params prf ks (Suc i + j) (positions ! j) cps = Inr ())"
      using Inr by (simp add: All_less_Suc2)
    then show ?thesis using Inr Cons.IH [of "Suc i"] by simp
  qed
qed

lemma positions_loop_first_failure:
  assumes "j < length positions"
    and "\<forall>j' < j. verify_proof_at_position M F comp' params prf ks (i + j') (positions ! j') cps
           = Inr ()"
    and "verify_proof_at_position M F comp' params prf ks (i + j) (positions ! j) cps = Inl e"
  shows "positions_loop M F comp' params prf ks cps i positions = Inl e"
  using assms
proof (induction positions arbitrary: i j)
  case Nil
  then show ?case by simp
next
  case (Cons pos positions)
  show ?case
  proof (cases j)
    case 0
    then show ?thesis using Cons.prems(3) by simp
  next
    case (Suc m)
    have first: "verify_proof_at_position M F comp' params prf ks i pos cps = Inr ()"
      using Cons.prems(2) [rule_format, of 0] Suc by simp
    have "positions_loop M F comp' params prf ks cps (Suc i) positions = Inl e"
    proof (rule Cons.IH [of m])
      show "m < length positions" using Cons.prems(1) Suc by simp
      show "\<forall>j' < m. verify_proof_at_position M F comp' params prf ks (Suc i + j') (positions ! j') cps
           = Inr ()"
        using Cons.prems(2) Suc by (auto dest: spec [of _ "Suc _"])
      show "verify_proof_at_position M F comp' params prf ks (Suc i + m) (positions ! m) cps = Inl e"
        using Cons.prems(3) Suc by simp
    qed
    then show ?thesis using first by simp
  qed
qed


lemma verify_proof_body_run:
  assumes "verifier_prelude M F comp' steps constants extension_factor params cps"
    and "verify_low_degree_proof M (l_root prf) (p_G2 params) (fri_proof prf)
           (steps * constraint_degree) modulus extension_factor = Inr fri_ok"
  shows "verify_proof_body M F comp' steps constants prf constraint_degree extension_factor =
     (if fri_ok
      then bind_err (positions_loop M F comp' params prf (verifier_challenges M prf) cps 0
                       (sampled_positions M prf params)) (\<lambda>_. Inr True)
      else Inl AssertionError)"
  using assms
  by (auto simp: verifier_prelude_def verify_proof_body_def bind_err_def assert_that_def)

lemma verify_proof_body_True:
  "verify_proof_body M F comp' steps constants prf constraint_degree extension_factor = Inr True
   \<longleftrightarrow>
   (\<exists>params cps.
      verifier_prelude M F comp' steps constants extension_factor params cps \<and>
      verify_low_degree_proof M (l_root prf) (p_G2 params) (fri_proof prf)
        (steps * constraint_degree) modulus extension_factor = Inr True \<and>
      (\<forall>j < length (sampled_positions M prf params).
         verify_proof_at_position M F comp' params prf (verifier_challenges M prf) j
           (sampled_positions M prf params ! j) cps = Inr ()))"
proof
  assume run: "verify_proof_body M F comp' steps constants prf constraint_degree extension_factor
      = Inr True"
  then obtain params c0 cps fri_ok where
      p: "StarkParams_init M F comp' modulus extension_factor = Inr params"
      and pw: "is_a_power_of_2 M steps"
      and c0: "get constants 0 = Inr c0" "int (length c0) \<le> steps"
      and cps: "map_err (verifier_constants M F params) constants = Inr cps"
      and fri: "verify_low_degree_proof M (l_root prf) (p_G2 params) (fri_proof prf)
        (steps * constraint_degree) modulus extension_factor = Inr fri_ok" "fri_ok"
      and loop: "positions_loop M F comp' params prf (verifier_challenges M prf) cps 0
                       (sampled_positions M prf params) = Inr ()"
    unfolding verify_proof_body_def
    by (auto dest!: bind_err_InrD assert_that_InrD)
  have "verifier_prelude M F comp' steps constants extension_factor params cps"
    using p pw c0 cps by (auto simp: verifier_prelude_def)
  moreover have "\<forall>j < length (sampled_positions M prf params).
         verify_proof_at_position M F comp' params prf (verifier_challenges M prf) j
           (sampled_positions M prf params ! j) cps = Inr ()"
    using loop positions_loop_all [of M F comp' params "prf" "verifier_challenges M prf" cps 0
        "sampled_positions M prf params"] by simp
  ultimately show "\<exists>params cps.
      verifier_prelude M F comp' steps constants extension_factor params cps \<and>
      verify_low_degree_proof M (l_root prf) (p_G2 params) (fri_proof prf)
        (steps * constraint_degree) modulus extension_factor = Inr True \<and>
      (\<forall>j < length (sampled_positions M prf params).
         verify_proof_at_position M F comp' params prf (verifier_challenges M prf) j
           (sampled_positions M prf params ! j) cps = Inr ())"
    using fri by auto
next
  assume "\<exists>params cps.
      verifier_prelude M F comp' steps constants extension_factor params cps \<and>
      verify_low_degree_proof M (l_root prf) (p_G2 params) (fri_proof prf)
        (steps * constraint_degree) modulus extension_factor = Inr True \<and>
      (\<forall>j < length (sampled_positions M prf params).
         verify_proof_at_position M F comp' params prf (verifier_challenges M prf) j
           (sampled_positions M prf params ! j) cps = Inr ())"
  then obtain params cps where
      pre: "verifier_prelude M F comp' steps constants extension_factor params cps"
      and fri: "verify_low_degree_proof M (l_root prf) (p_G2 params) (fri_proof prf)
        (steps * constraint_degree) modulus extension_factor = Inr True"
      and each: "\<forall>j < length (sampled_positions M prf params).
         verify_proof_at_position M F comp' params prf (verifier_challenges M prf) j
           (sampled_positions M prf params ! j) cps = Inr ()"
    by blast
  have "positions_loop M F comp' params prf (verifier_challenges M prf) cps 0
                       (sampled_positions M prf params) = Inr ()"
    using each positions_loop_all [of M F comp' params "prf" "verifier_challenges M prf" cps 0
        "sampled_positions M prf params"] by simp
  then show "verify_proof_body M F comp' steps constants prf constraint_degree extension_factor
      = Inr True"
    using verify_proof_body_run [OF pre fri] by (simp add: bind_err_def)
qed

lemma verify_proof_body_fri_rejects:
  assumes "verifier_prelude M F comp' steps constants extension_factor params cps"
    and "verify_low_degree_proof M (l_root prf) (p_G2 params) (fri_proof prf)
           (steps * constraint_degree) modulus extension_factor = Inr False"
  shows "verify_proof_body M F comp' steps constants prf constraint_degree extension_factor
           = Inl AssertionError"
  using verify_proof_body_run [OF assms] by simp

lemma verify_proof_body_position_raises:
  assumes "verifier_prelude M F comp' steps constants extension_factor params cps"
    and "verify_low_degree_proof M (l_root prf) (p_G2 params) (fri_proof prf)
           (steps * constraint_degree) modulus extension_factor = Inr True"
    and "j < length (sampled_positions M prf params)"
    and "\<forall>j' < j. verify_proof_at_position M F comp' params prf (verifier_challenges M prf) j'
           (sampled_positions M prf params ! j') cps = Inr ()"
    and "verify_proof_at_position M F comp' params prf (verifier_challenges M prf) j
           (sampled_positions M prf params ! j) cps = Inl e"
  shows "verify_proof_body M F comp' steps constants prf constraint_degree extension_factor
           = Inl e"
proof -
  have "positions_loop M F comp' params prf (verifier_challenges M prf) cps 0
          (sampled_positions M prf params) = Inl e"
    by (rule positions_loop_first_failure [of j]) (use assms(3-5) in simp_all)
  then show ?thesis
    using verify_proof_body_run [OF assms(1,2)] by (simp add: bind_err_def)
qed

lemma position_returns_iff:
  "verify_proof_at_position M F comp' params prf (k1, k2, k3, k4) i pos cps = Inr () \<longleftrightarrow>
   (\<exists>mbranch1 mbranch2 l_of_x zvalue k_of_xs step_of_p z2 interpolant i_of_x.
      transition_inputs M F comp' params prf i pos cps
        mbranch1 mbranch2 l_of_x zvalue k_of_xs step_of_p \<and>
      transition_residue (int_from_bytes_big (take 32 mbranch2)) step_of_p zvalue
        (int_from_bytes_big (take 32 (drop 32 mbranch1))) = 0 \<and>
      boundary_inputs F comp' params pos z2 interpolant i_of_x \<and>
      boundary_residue (int_from_bytes_big (take 32 mbranch1))
        (int_from_bytes_big (drop 64 mbranch1)) z2 i_of_x = 0 \<and>
      combination_residue l_of_x (int_from_bytes_big (take 32 (drop 32 mbranch1)))
        (int_from_bytes_big (take 32 mbranch1)) (int_from_bytes_big (drop 64 mbranch1))
        k1 k2 k3 k4 (f_exp F (f_exp F (p_G2 params) pos) (c_steps comp')) = 0)"
proof
  assume "verify_proof_at_position M F comp' params prf (k1, k2, k3, k4) i pos cps = Inr ()"
  then show "\<exists>mbranch1 mbranch2 l_of_x zvalue k_of_xs step_of_p z2 interpolant i_of_x.
      transition_inputs M F comp' params prf i pos cps
        mbranch1 mbranch2 l_of_x zvalue k_of_xs step_of_p \<and>
      transition_residue (int_from_bytes_big (take 32 mbranch2)) step_of_p zvalue
        (int_from_bytes_big (take 32 (drop 32 mbranch1))) = 0 \<and>
      boundary_inputs F comp' params pos z2 interpolant i_of_x \<and>
      boundary_residue (int_from_bytes_big (take 32 mbranch1))
        (int_from_bytes_big (drop 64 mbranch1)) z2 i_of_x = 0 \<and>
      combination_residue l_of_x (int_from_bytes_big (take 32 (drop 32 mbranch1)))
        (int_from_bytes_big (take 32 mbranch1)) (int_from_bytes_big (drop 64 mbranch1))
        k1 k2 k3 k4 (f_exp F (f_exp F (p_G2 params) pos) (c_steps comp')) = 0"
    unfolding verify_proof_at_position_def Let_def transition_inputs_def boundary_inputs_def
    by (auto dest!: bind_err_InrD assert_that_InrD simp: split_def split: pyval.splits)
next
  assume "\<exists>mbranch1 mbranch2 l_of_x zvalue k_of_xs step_of_p z2 interpolant i_of_x.
      transition_inputs M F comp' params prf i pos cps
        mbranch1 mbranch2 l_of_x zvalue k_of_xs step_of_p \<and>
      transition_residue (int_from_bytes_big (take 32 mbranch2)) step_of_p zvalue
        (int_from_bytes_big (take 32 (drop 32 mbranch1))) = 0 \<and>
      boundary_inputs F comp' params pos z2 interpolant i_of_x \<and>
      boundary_residue (int_from_bytes_big (take 32 mbranch1))
        (int_from_bytes_big (drop 64 mbranch1)) z2 i_of_x = 0 \<and>
      combination_residue l_of_x (int_from_bytes_big (take 32 (drop 32 mbranch1)))
        (int_from_bytes_big (take 32 mbranch1)) (int_from_bytes_big (drop 64 mbranch1))
        k1 k2 k3 k4 (f_exp F (f_exp F (p_G2 params) pos) (c_steps comp')) = 0"
  then show "verify_proof_at_position M F comp' params prf (k1, k2, k3, k4) i pos cps = Inr ()"
    unfolding verify_proof_at_position_def Let_def transition_inputs_def boundary_inputs_def
    by (auto simp: bind_err_def assert_that_def)
qed

lemma position_transition_fails:
  assumes "transition_inputs M F comp' params prf i pos cps
             mbranch1 mbranch2 l_of_x zvalue k_of_xs step_of_p"
    and "transition_residue (int_from_bytes_big (take 32 mbranch2)) step_of_p zvalue
           (int_from_bytes_big (take 32 (drop 32 mbranch1))) \<noteq> 0"
  shows "verify_proof_at_position M F comp' params prf (k1, k2, k3, k4) i pos cps
           = Inl AssertionError"
  using assms
  unfolding verify_proof_at_position_def Let_def transition_inputs_def
  by (auto simp: bind_err_def assert_that_def)

lemma position_later_fails:
  assumes "transition_inputs M F comp' params prf i pos cps
             mbranch1 mbranch2 l_of_x zvalue k_of_xs step_of_p"
    and "transition_residue (int_from_bytes_big (take 32 mbranch2)) step_of_p zvalue
           (int_from_bytes_big (take 32 (drop 32 mbranch1))) = 0"
    and "boundary_inputs F comp' params pos z2 interpolant i_of_x"
    and "\<not> (boundary_residue (int_from_bytes_big (take 32 mbranch1))
              (int_from_bytes_big (drop 64 mbranch1)) z2 i_of_x = 0 \<and>
            combination_residue l_of_x (int_from_bytes_big (take 32 (drop 32 mbranch1)))
              (int_from_bytes_big (take 32 mbranch1)) (int_from_bytes_big (drop 64 mbranch1))
              k1 k2 k3 k4 (f_exp F (f_exp F (p_G2 params) pos) (c_steps comp')) = 0)"
  shows "verify_proof_at_position M F comp' params prf (k1, k2, k3, k4) i pos cps
           = Inl AssertionError"
  using assms
  unfolding verify_proof_at_position_def Let_def transition_inputs_def boundary_inputs_def
  by (auto simp: bind_err_def assert_that_def)

lemma position_opening_raises:
  "verify_openings M params prf i pos = Inl e \<Longrightarrow>
   verify_proof_at_position M F comp' params prf (k1, k2, k3, k4) i pos cps = Inl e"
  unfolding verify_proof_at_position_def Let_def
  by (simp add: bind_err_def)

text \<open>
  The two-step computation \<open>x \<mapsto> x + 1\<close> with the constants row \<open>[0, 0]\<close>, evaluated: the
  parameters, the openings of the three proof objects and the values the position check
  computes at the sampled position 1.
\<close>

lemma tiny_G2_squared: "tiny_G2 ^ 2 mod modulus = modulus - 1"
  by (simp add: tiny_G2_def modulus_def)

lemma tiny_params_init:
  "StarkParams_init tiny_modules tiny_field tiny_comp modulus 2 = Inr tiny_params"
  apply (simp add: StarkParams_init_def tiny_comp_def floordiv_def bind_err_def Let_def
      tiny_modules_def toy_modules_def tiny_field_def toy_field_def py_index_def tiny_params_def)
  apply (simp add: tiny_G2_def modulus_def)
  done

lemma tiny_power_of_2: "is_a_power_of_2 tiny_modules 2"
proof -
  have "(2::int) = 2 ^ 1" by simp
  moreover have "(1::nat) \<in> set [0..<33]" by simp
  ultimately have "(2::int) \<in> (\<lambda>k. 2 ^ k) ` set [0..<33]" by (rule image_eqI)
  then show ?thesis by (simp add: tiny_modules_def toy_modules_def)
qed

lemma tiny_constants:
  "map_err (verifier_constants tiny_modules tiny_field tiny_params) [[0, 0]]
     = Inr [[PInt 0, PInt 0]]"
  by (simp add: verifier_constants_def tiny_modules_def toy_modules_def bind_err_def
      assert_that_def tiny_params_def)

lemma tiny_prelude:
  "verifier_prelude tiny_modules tiny_field tiny_comp 2 [[0, 0]] 2 tiny_params [[PInt 0, PInt 0]]"
  unfolding verifier_prelude_def
  using tiny_params_init tiny_power_of_2 tiny_constants
  by (simp add: get_def del: map_err.simps)

lemma rejecting_same_constants:
  "verifier_constants rejecting_modules = verifier_constants tiny_modules"
  by (intro ext) (simp add: verifier_constants_def rejecting_modules_def)

lemma rejecting_same_params:
  "StarkParams_init rejecting_modules = StarkParams_init tiny_modules"
  by (intro ext) (simp add: StarkParams_init_def rejecting_modules_def)

lemma rejecting_prelude:
  "verifier_prelude rejecting_modules tiny_field tiny_comp 2 [[0, 0]] 2 tiny_params
     [[PInt 0, PInt 0]]"
  using tiny_prelude
  unfolding verifier_prelude_def rejecting_same_constants rejecting_same_params
  by (simp add: rejecting_modules_def del: map_err.simps)

lemma rejecting_fri:
  "verify_low_degree_proof rejecting_modules root g fri maxdeg m ex = Inr False"
  by (simp add: rejecting_modules_def)

lemma tiny_fri:
  "verify_low_degree_proof tiny_modules root g fri maxdeg m ex = Inr True"
  by (simp add: tiny_modules_def toy_modules_def)

lemma tiny_positions:
  "sampled_positions tiny_modules pr tiny_params = replicate 80 1"
  by (simp add: sampled_positions_def tiny_modules_def toy_modules_def
      spot_check_security_factor_def)

lemma get_concat_replicate:
  "j < n \<Longrightarrow> r < 3 \<Longrightarrow>
   get (concat (replicate n [a, b, c])) (j * 3 + r) = Inr ([a, b, c] ! r)"
proof (induction n arbitrary: j)
  case 0
  then show ?case by simp
next
  case (Suc n)
  show ?case
  proof (cases j)
    case 0
    then show ?thesis using Suc.prems by (simp add: get_def nth_Cons split: nat.splits)
  next
    case (Suc j')
    then have "j' < n" using Suc.prems by simp
    from Suc.IH [OF this Suc.prems(2)] show ?thesis
      using Suc by (simp add: get_def split: if_splits)
  qed
qed


lemma get_concat_replicate3:
  assumes "j < n"
  shows "get (concat (replicate n [a, b, c])) (j * 3) = Inr a"
    and "get (concat (replicate n [a, b, c])) (Suc (j * 3)) = Inr b"
    and "get (concat (replicate n [a, b, c])) (Suc (Suc (j * 3))) = Inr c"
  using get_concat_replicate [OF assms, of 0 a b c] get_concat_replicate [OF assms, of 1 a b c]
    get_concat_replicate [OF assms, of 2 a b c]
  by simp_all

lemma zeros_digest: "int_from_bytes_big (replicate n 0) = 0"
proof (induction n)
  case 0
  show ?case by (simp add: int_from_bytes_big_def)
next
  case (Suc n)
  have "replicate (Suc n) (0 :: 8 word) = replicate n 0 @ [0]"
    by (simp add: replicate_append_same)
  then have "int_from_bytes_big (replicate (Suc n) 0) = int_from_bytes_big (replicate n 0) * 256 + 0"
    by (simp only: int_from_bytes_big_snoc) simp
  then show ?case using Suc by simp
qed

lemma toy_leaf_one: "int_from_bytes_big (replicate 31 0 @ [1]) = 1"
  by (simp add: int_from_bytes_big_snoc zeros_digest)

lemma tiny_openings:
  assumes "j < 80"
  shows "verify_openings tiny_modules tiny_params tiny_proof j 1
     = Inr (replicate 96 0, replicate 31 0 @ [1], 0)"
  by (simp add: verify_openings_def tiny_proof_def toy_proof_def tiny_modules_def toy_modules_def
      tiny_params_def bind_err_def py_mod_def int_from_bytes_big_def
      get_concat_replicate3 [OF assms])

lemma bad_openings:
  assumes "j < 80"
  shows "verify_openings tiny_modules tiny_params bad_proof j 1
     = Inr (replicate 96 0, replicate 31 0 @ [1], 1)"
  by (simp add: verify_openings_def bad_proof_def toy_proof_def tiny_modules_def toy_modules_def
      tiny_params_def bind_err_def py_mod_def int_from_bytes_big_def
      get_concat_replicate3 [OF assms])

lemma torn_openings:
  assumes "j < 80"
  shows "verify_openings tiny_modules tiny_params torn_proof j 1 = Inl AssertionError"
  by (simp add: verify_openings_def torn_proof_def toy_proof_def tiny_modules_def toy_modules_def
      bind_err_def get_concat_replicate3 [OF assms])

lemma tiny_point: "f_exp tiny_field (p_G2 tiny_params) 1 = tiny_G2"
  by (simp add: tiny_field_def toy_field_def tiny_params_def tiny_G2_def modulus_def)

lemma tiny_zvalue:
  "f_div tiny_field (f_exp tiny_field tiny_G2 (c_steps tiny_comp) - 1)
     (tiny_G2 - p_last_step_position tiny_params) = Inr 0"
  by (simp add: tiny_field_def toy_field_def tiny_params_def tiny_G2_def modulus_def)

lemma tiny_transition_inputs:
  assumes "verify_openings tiny_modules tiny_params pr j 1
     = Inr (replicate 96 0, replicate 31 0 @ [1], l)"
  shows "transition_inputs tiny_modules tiny_field tiny_comp tiny_params pr j 1
     [[PInt 0, PInt 0]] (replicate 96 0) (replicate 31 0 @ [1]) l 0 [0] 1"
  unfolding transition_inputs_def tiny_point
  using assms tiny_zvalue
  by (simp add: zeros_digest)
     (simp add: tiny_field_def toy_field_def tiny_comp_def step_plus_one_def modulus_def)

lemma mimc_transition_inputs:
  assumes "verify_openings tiny_modules tiny_params pr j 1
     = Inr (replicate 96 0, replicate 31 0 @ [1], l)"
  shows "transition_inputs tiny_modules tiny_field (tiny_comp\<lparr>c_step_fn := step_mimc\<rparr>)
     tiny_params pr j 1
     [[PInt 0, PInt 0]] (replicate 96 0) (replicate 31 0 @ [1]) l 0 [0] 0"
  unfolding transition_inputs_def tiny_point
  using assms tiny_zvalue
  by (simp add: zeros_digest)
     (simp add: tiny_field_def toy_field_def tiny_comp_def step_mimc_def modulus_def)

lemma tiny_boundary_inputs:
  "boundary_inputs tiny_field tiny_comp tiny_params 1 0 [0, 0] 0"
  by (simp add: boundary_inputs_def tiny_field_def toy_field_def)

lemma tiny_transition_residue:
  "transition_residue (int_from_bytes_big (take 32 (replicate 31 0 @ [1]))) 1 0
     (int_from_bytes_big (take 32 (drop 32 (replicate 96 0)))) = 0"
  by (simp add: transition_residue_def toy_leaf_one zeros_digest)

lemma mimc_transition_residue:
  "transition_residue (int_from_bytes_big (take 32 (replicate 31 0 @ [1]))) 0 0
     (int_from_bytes_big (take 32 (drop 32 (replicate 96 0)))) = 1"
  by (simp add: transition_residue_def toy_leaf_one zeros_digest modulus_def)

lemma tiny_boundary_residue:
  "boundary_residue (int_from_bytes_big (take 32 (replicate 96 0)))
     (int_from_bytes_big (drop 64 (replicate 96 0))) 0 0 = 0"
  by (simp add: boundary_residue_def zeros_digest)

lemma tiny_combination_residue:
  "combination_residue l (int_from_bytes_big (take 32 (drop 32 (replicate 96 0))))
     (int_from_bytes_big (take 32 (replicate 96 0)))
     (int_from_bytes_big (drop 64 (replicate 96 0))) k1 k2 k3 k4 x = l mod modulus"
  by (simp add: combination_residue_def zeros_digest)

lemma tiny_position_accepts:
  assumes "j < 80"
  shows "verify_proof_at_position tiny_modules tiny_field tiny_comp tiny_params tiny_proof
           (k1, k2, k3, k4) j 1 [[PInt 0, PInt 0]] = Inr ()"
  unfolding position_returns_iff
  using tiny_transition_inputs [OF tiny_openings [OF assms]] tiny_boundary_inputs
    tiny_transition_residue tiny_boundary_residue tiny_combination_residue [of 0]
  by (intro exI [of _ "replicate 96 0"] exI [of _ "replicate 31 0 @ [1]"] exI [of _ 0]
        exI [of _ "[0]"] exI [of _ 1] exI [of _ "[0, 0]"] conjI) simp_all

lemma bad_position_premises:
  "\<not> (boundary_residue (int_from_bytes_big (take 32 (replicate 96 0)))
          (int_from_bytes_big (drop 64 (replicate 96 0))) 0 0 = 0 \<and>
        combination_residue 1 (int_from_bytes_big (take 32 (drop 32 (replicate 96 0))))
          (int_from_bytes_big (take 32 (replicate 96 0)))
          (int_from_bytes_big (drop 64 (replicate 96 0)))
          k1 k2 k3 k4 x = 0)"
  by (simp add: combination_residue_def zeros_digest modulus_def)

text \<open>
  Claim C2, as amended. The verifier never answers \<open>False\<close>: every check is an \<open>assert\<close>, a
  failed check raises and no exception is caught.

  \<^item> \<open>verify_proof\<close> never returns \<open>False\<close>, and it raises AssertionError when
    \<open>steps > 2^32 // extension_factor\<close> (\<open>extension_factor\<close> not 0).
  \<^item> The rest of the function, from \<open>StarkParams(comp, modulus, extension_factor)\<close> on
    (\<open>verify_proof_body\<close>, for any computation \<open>comp\<close>), returns \<open>True\<close> or raises. It
    returns \<open>True\<close> exactly when the parameters are built, the assertions on \<open>steps\<close> and
    \<open>constants[0]\<close> hold, the polynomials of the constants are computed, the FRI
    verification answers \<open>True\<close> and \<open>verify_proof_at_position\<close> returns at every sampled
    position. When the FRI verification answers \<open>False\<close> it raises AssertionError, and the
    exception of the first sampled position that raises reaches the caller.
  \<^item> \<open>verify_proof_at_position\<close> returns exactly when the three Merkle openings verify, the
    values of its three assertions are computed, and the transition, boundary and
    linear-combination residues are 0 at the position. An exception of a Merkle opening
    reaches the caller, and a residue that is not 0 raises AssertionError.
\<close>

theorem verify_proof_true_or_raises:
  "verify_proof M F inp steps constants out pr step constraint_degree extension_factor
     \<noteq> Inr False \<and>
   (extension_factor \<noteq> 0 \<and> 2 ^ 32 div extension_factor < steps \<longrightarrow>
      verify_proof M F inp steps constants out pr step constraint_degree extension_factor
        = Inl AssertionError) \<and>
   verify_proof_body M F comp' steps constants pr constraint_degree extension_factor
     \<noteq> Inr False \<and>
   (verify_proof_body M F comp' steps constants pr constraint_degree extension_factor = Inr True
    \<longleftrightarrow>
    (\<exists>params cps.
       verifier_prelude M F comp' steps constants extension_factor params cps \<and>
       verify_low_degree_proof M (l_root pr) (p_G2 params) (fri_proof pr)
         (steps * constraint_degree) modulus extension_factor = Inr True \<and>
       (\<forall>j < length (sampled_positions M pr params).
          verify_proof_at_position M F comp' params pr (verifier_challenges M pr) j
            (sampled_positions M pr params ! j) cps = Inr ()))) \<and>
   (verifier_prelude M F comp' steps constants extension_factor params cps \<and>
    verify_low_degree_proof M (l_root pr) (p_G2 params) (fri_proof pr)
      (steps * constraint_degree) modulus extension_factor = Inr False \<longrightarrow>
      verify_proof_body M F comp' steps constants pr constraint_degree extension_factor
        = Inl AssertionError) \<and>
   (verifier_prelude M F comp' steps constants extension_factor params cps \<and>
    verify_low_degree_proof M (l_root pr) (p_G2 params) (fri_proof pr)
      (steps * constraint_degree) modulus extension_factor = Inr True \<and>
    j < length (sampled_positions M pr params) \<and>
    (\<forall>j' < j. verify_proof_at_position M F comp' params pr (verifier_challenges M pr) j'
                 (sampled_positions M pr params ! j') cps = Inr ()) \<and>
    verify_proof_at_position M F comp' params pr (verifier_challenges M pr) j
      (sampled_positions M pr params ! j) cps = Inl e \<longrightarrow>
      verify_proof_body M F comp' steps constants pr constraint_degree extension_factor
        = Inl e) \<and>
   (verify_proof_at_position M F comp' params pr (k1, k2, k3, k4) i pos cps = Inr () \<longleftrightarrow>
    (\<exists>mbranch1 mbranch2 l_of_x zvalue k_of_xs step_of_p z2 interpolant i_of_x.
       transition_inputs M F comp' params pr i pos cps
         mbranch1 mbranch2 l_of_x zvalue k_of_xs step_of_p \<and>
       transition_residue (int_from_bytes_big (take 32 mbranch2)) step_of_p zvalue
         (int_from_bytes_big (take 32 (drop 32 mbranch1))) = 0 \<and>
       boundary_inputs F comp' params pos z2 interpolant i_of_x \<and>
       boundary_residue (int_from_bytes_big (take 32 mbranch1))
         (int_from_bytes_big (drop 64 mbranch1)) z2 i_of_x = 0 \<and>
       combination_residue l_of_x (int_from_bytes_big (take 32 (drop 32 mbranch1)))
         (int_from_bytes_big (take 32 mbranch1)) (int_from_bytes_big (drop 64 mbranch1))
         k1 k2 k3 k4 (f_exp F (f_exp F (p_G2 params) pos) (c_steps comp')) = 0)) \<and>
   (verify_openings M params pr i pos = Inl e' \<longrightarrow>
      verify_proof_at_position M F comp' params pr (k1, k2, k3, k4) i pos cps = Inl e') \<and>
   (transition_inputs M F comp' params pr i pos cps m1 m2 l zv kx sp \<and>
    transition_residue (int_from_bytes_big (take 32 m2)) sp zv
      (int_from_bytes_big (take 32 (drop 32 m1))) \<noteq> 0 \<longrightarrow>
      verify_proof_at_position M F comp' params pr (k1, k2, k3, k4) i pos cps
        = Inl AssertionError) \<and>
   (transition_inputs M F comp' params pr i pos cps m1 m2 l zv kx sp \<and>
    transition_residue (int_from_bytes_big (take 32 m2)) sp zv
      (int_from_bytes_big (take 32 (drop 32 m1))) = 0 \<and>
    boundary_inputs F comp' params pos zb ip ix \<and>
    \<not> (boundary_residue (int_from_bytes_big (take 32 m1))
          (int_from_bytes_big (drop 64 m1)) zb ix = 0 \<and>
        combination_residue l (int_from_bytes_big (take 32 (drop 32 m1)))
          (int_from_bytes_big (take 32 m1)) (int_from_bytes_big (drop 64 m1))
          k1 k2 k3 k4 (f_exp F (f_exp F (p_G2 params) pos) (c_steps comp')) = 0) \<longrightarrow>
      verify_proof_at_position M F comp' params pr (k1, k2, k3, k4) i pos cps
        = Inl AssertionError)"
proof (intro conjI impI)
  show "verify_proof M F inp steps constants out pr step constraint_degree extension_factor
     \<noteq> Inr False"
    by (rule verify_proof_not_False)
next
  assume "extension_factor \<noteq> 0 \<and> 2 ^ 32 div extension_factor < steps"
  then show "verify_proof M F inp steps constants out pr step constraint_degree
      extension_factor = Inl AssertionError"
    by (simp add: verify_proof_bound)
next
  show "verify_proof_body M F comp' steps constants pr constraint_degree extension_factor
     \<noteq> Inr False"
    by (rule verify_proof_body_not_False)
next
  show "verify_proof_body M F comp' steps constants pr constraint_degree extension_factor
      = Inr True \<longleftrightarrow>
    (\<exists>params cps.
       verifier_prelude M F comp' steps constants extension_factor params cps \<and>
       verify_low_degree_proof M (l_root pr) (p_G2 params) (fri_proof pr)
         (steps * constraint_degree) modulus extension_factor = Inr True \<and>
       (\<forall>j < length (sampled_positions M pr params).
          verify_proof_at_position M F comp' params pr (verifier_challenges M pr) j
            (sampled_positions M pr params ! j) cps = Inr ()))"
    by (rule verify_proof_body_True)
next
  assume "verifier_prelude M F comp' steps constants extension_factor params cps \<and>
    verify_low_degree_proof M (l_root pr) (p_G2 params) (fri_proof pr)
      (steps * constraint_degree) modulus extension_factor = Inr False"
  then show "verify_proof_body M F comp' steps constants pr constraint_degree extension_factor
        = Inl AssertionError"
    using verify_proof_body_fri_rejects by blast
next
  assume "verifier_prelude M F comp' steps constants extension_factor params cps \<and>
    verify_low_degree_proof M (l_root pr) (p_G2 params) (fri_proof pr)
      (steps * constraint_degree) modulus extension_factor = Inr True \<and>
    j < length (sampled_positions M pr params) \<and>
    (\<forall>j' < j. verify_proof_at_position M F comp' params pr (verifier_challenges M pr) j'
                 (sampled_positions M pr params ! j') cps = Inr ()) \<and>
    verify_proof_at_position M F comp' params pr (verifier_challenges M pr) j
      (sampled_positions M pr params ! j) cps = Inl e"
  then show "verify_proof_body M F comp' steps constants pr constraint_degree extension_factor
        = Inl e"
    using verify_proof_body_position_raises [of M F comp' steps constants extension_factor
        params cps "pr" constraint_degree j e]
    by blast
next
  show "verify_proof_at_position M F comp' params pr (k1, k2, k3, k4) i pos cps = Inr () \<longleftrightarrow>
    (\<exists>mbranch1 mbranch2 l_of_x zvalue k_of_xs step_of_p z2 interpolant i_of_x.
       transition_inputs M F comp' params pr i pos cps
         mbranch1 mbranch2 l_of_x zvalue k_of_xs step_of_p \<and>
       transition_residue (int_from_bytes_big (take 32 mbranch2)) step_of_p zvalue
         (int_from_bytes_big (take 32 (drop 32 mbranch1))) = 0 \<and>
       boundary_inputs F comp' params pos z2 interpolant i_of_x \<and>
       boundary_residue (int_from_bytes_big (take 32 mbranch1))
         (int_from_bytes_big (drop 64 mbranch1)) z2 i_of_x = 0 \<and>
       combination_residue l_of_x (int_from_bytes_big (take 32 (drop 32 mbranch1)))
         (int_from_bytes_big (take 32 mbranch1)) (int_from_bytes_big (drop 64 mbranch1))
         k1 k2 k3 k4 (f_exp F (f_exp F (p_G2 params) pos) (c_steps comp')) = 0)"
    by (rule position_returns_iff)
next
  assume "verify_openings M params pr i pos = Inl e'"
  then show "verify_proof_at_position M F comp' params pr (k1, k2, k3, k4) i pos cps = Inl e'"
    by (rule position_opening_raises)
next
  assume "transition_inputs M F comp' params pr i pos cps m1 m2 l zv kx sp \<and>
    transition_residue (int_from_bytes_big (take 32 m2)) sp zv
      (int_from_bytes_big (take 32 (drop 32 m1))) \<noteq> 0"
  then show "verify_proof_at_position M F comp' params pr (k1, k2, k3, k4) i pos cps
        = Inl AssertionError"
    using position_transition_fails by blast
next
  assume "transition_inputs M F comp' params pr i pos cps m1 m2 l zv kx sp \<and>
    transition_residue (int_from_bytes_big (take 32 m2)) sp zv
      (int_from_bytes_big (take 32 (drop 32 m1))) = 0 \<and>
    boundary_inputs F comp' params pos zb ip ix \<and>
    \<not> (boundary_residue (int_from_bytes_big (take 32 m1))
          (int_from_bytes_big (drop 64 m1)) zb ix = 0 \<and>
        combination_residue l (int_from_bytes_big (take 32 (drop 32 m1)))
          (int_from_bytes_big (take 32 m1)) (int_from_bytes_big (drop 64 m1))
          k1 k2 k3 k4 (f_exp F (f_exp F (p_G2 params) pos) (c_steps comp')) = 0)"
  then show "verify_proof_at_position M F comp' params pr (k1, k2, k3, k4) i pos cps
        = Inl AssertionError"
    using position_later_fails [of M F comp' params "pr" i pos cps m1 m2 l zv kx sp zb ip ix
        k1 k2 k3 k4]
    by blast
qed

text \<open>
  With \<open>steps = 2^32\<close> and \<open>extension_factor = 8\<close> the first assertion fails and the
  caller receives an AssertionError, not \<open>False\<close>.
\<close>

theorem verify_proof_raises_counterexample:
  "verify_proof toy_modules toy_field (PInt 5) (2 ^ 32) [] (PInt 0) toy_proof step_plus_one 2 8
     = Inl AssertionError"
  by (simp add: verify_proof_def bind_err_def floordiv_def assert_that_def)

text \<open>
  On the two-step computation: the position check returns and the body answers \<open>True\<close> on
  the proof object whose openings satisfy the three identities. The body raises
  AssertionError when the FRI verification answers \<open>False\<close>, when the leaf of the second
  tree is 1 (the linear combination fails at the first position) and when the first branch
  is empty (the opening fails). The position check raises AssertionError for the step
  \<open>x \<mapsto> x^3 + c\<close>, which the opened values do not follow, and \<open>verify_proof\<close> ends in
  AssertionError beyond the bound on \<open>steps\<close>.
\<close>

theorem verify_proof_true_or_raises_witness:
  "verifier_prelude tiny_modules tiny_field tiny_comp 2 [[0, 0]] 2 tiny_params
     [[PInt 0, PInt 0]] \<and>
   verify_proof_at_position tiny_modules tiny_field tiny_comp tiny_params tiny_proof
     (1, 2, 3, 4) 0 1 [[PInt 0, PInt 0]] = Inr () \<and>
   verify_proof_body tiny_modules tiny_field tiny_comp 2 [[0, 0]] tiny_proof 2 2 = Inr True \<and>
   verify_low_degree_proof rejecting_modules (l_root tiny_proof) (p_G2 tiny_params)
     (fri_proof tiny_proof) (2 * 2) modulus 2 = Inr False \<and>
   verify_proof_body rejecting_modules tiny_field tiny_comp 2 [[0, 0]] tiny_proof 2 2
     = Inl AssertionError \<and>
   verify_openings tiny_modules tiny_params bad_proof 0 1
     = Inr (replicate 96 0, replicate 31 0 @ [1], 1) \<and>
   verify_proof_at_position tiny_modules tiny_field tiny_comp tiny_params bad_proof
     (verifier_challenges tiny_modules bad_proof) 0 1 [[PInt 0, PInt 0]] = Inl AssertionError \<and>
   verify_proof_body tiny_modules tiny_field tiny_comp 2 [[0, 0]] bad_proof 2 2
     = Inl AssertionError \<and>
   verify_openings tiny_modules tiny_params torn_proof 0 1 = Inl AssertionError \<and>
   verify_proof_body tiny_modules tiny_field tiny_comp 2 [[0, 0]] torn_proof 2 2
     = Inl AssertionError \<and>
   verify_proof_at_position tiny_modules tiny_field (tiny_comp\<lparr>c_step_fn := step_mimc\<rparr>)
     tiny_params tiny_proof (1, 2, 3, 4) 0 1 [[PInt 0, PInt 0]] = Inl AssertionError \<and>
   (8 :: int) \<noteq> 0 \<and> 2 ^ 32 div 8 < (2 ^ 32 :: int) \<and>
   verify_proof toy_modules toy_field (PInt 5) (2 ^ 32) [] (PInt 0) toy_proof step_plus_one 2 8
     = Inl AssertionError"
proof -
  note accept = verify_proof_true_or_raises [where M = tiny_modules and F = tiny_field
      and comp' = tiny_comp and steps = 2 and constants = "[[0, 0]]" and pr = tiny_proof
      and constraint_degree = 2 and extension_factor = 2]
  have pre: "verifier_prelude tiny_modules tiny_field tiny_comp 2 [[0, 0]] 2 tiny_params
      [[PInt 0, PInt 0]]"
    by (rule tiny_prelude)
  have fri: "verify_low_degree_proof tiny_modules (l_root pr) (p_G2 tiny_params)
      (fri_proof pr) (2 * 2) modulus 2 = Inr True" for pr :: "unit stark_proof"
    by (rule tiny_fri)
  have all: "\<forall>j < length (sampled_positions tiny_modules tiny_proof tiny_params).
      verify_proof_at_position tiny_modules tiny_field tiny_comp tiny_params tiny_proof
        (verifier_challenges tiny_modules tiny_proof) j
        (sampled_positions tiny_modules tiny_proof tiny_params ! j) [[PInt 0, PInt 0]] = Inr ()"
    by (simp add: tiny_positions verifier_challenges_def tiny_position_accepts)
  have a: "verify_proof_body tiny_modules tiny_field tiny_comp 2 [[0, 0]] tiny_proof 2 2
      = Inr True"
    using accept [THEN conjunct2, THEN conjunct2, THEN conjunct2, THEN conjunct1, THEN iffD2] pre fri [of tiny_proof] all by blast
  have p0: "verify_proof_at_position tiny_modules tiny_field tiny_comp tiny_params tiny_proof
      (1, 2, 3, 4) 0 1 [[PInt 0, PInt 0]] = Inr ()"
  proof (rule verify_proof_true_or_raises [where M = tiny_modules and F = tiny_field
        and comp' = tiny_comp and params = tiny_params and pr = tiny_proof
        and cps = "[[PInt 0, PInt 0]]" and ?k1.0 = 1 and ?k2.0 = 2 and ?k3.0 = 3 and ?k4.0 = 4
        and i = 0 and pos = 1, THEN conjunct2, THEN conjunct2, THEN conjunct2, THEN conjunct2,
        THEN conjunct2, THEN conjunct2, THEN conjunct1, THEN iffD2])
    show "\<exists>mbranch1 mbranch2 l_of_x zvalue k_of_xs step_of_p z2 interpolant i_of_x.
       transition_inputs tiny_modules tiny_field tiny_comp tiny_params tiny_proof 0 1
         [[PInt 0, PInt 0]] mbranch1 mbranch2 l_of_x zvalue k_of_xs step_of_p \<and>
       transition_residue (int_from_bytes_big (take 32 mbranch2)) step_of_p zvalue
         (int_from_bytes_big (take 32 (drop 32 mbranch1))) = 0 \<and>
       boundary_inputs tiny_field tiny_comp tiny_params 1 z2 interpolant i_of_x \<and>
       boundary_residue (int_from_bytes_big (take 32 mbranch1))
         (int_from_bytes_big (drop 64 mbranch1)) z2 i_of_x = 0 \<and>
       combination_residue l_of_x (int_from_bytes_big (take 32 (drop 32 mbranch1)))
         (int_from_bytes_big (take 32 mbranch1)) (int_from_bytes_big (drop 64 mbranch1))
         1 2 3 4 (f_exp tiny_field (f_exp tiny_field (p_G2 tiny_params) 1) (c_steps tiny_comp))
         = 0"
      using tiny_transition_inputs [OF tiny_openings [of 0], simplified] tiny_boundary_inputs
        tiny_transition_residue tiny_boundary_residue tiny_combination_residue [of 0]
      by (intro exI [of _ "replicate 96 0"] exI [of _ "replicate 31 0 @ [1]"] exI [of _ 0]
          exI [of _ "[0]"] exI [of _ 1] exI [of _ "[0, 0]"] conjI) simp_all
  qed
  have rej: "verify_low_degree_proof rejecting_modules (l_root tiny_proof) (p_G2 tiny_params)
     (fri_proof tiny_proof) (2 * 2) modulus 2 = Inr False"
    by (rule rejecting_fri)
  have b: "verify_proof_body rejecting_modules tiny_field tiny_comp 2 [[0, 0]] tiny_proof 2 2
     = Inl AssertionError"
    using verify_proof_true_or_raises [where M = rejecting_modules and F = tiny_field
      and comp' = tiny_comp and steps = 2 and constants = "[[0, 0]]" and pr = tiny_proof
      and constraint_degree = 2 and extension_factor = 2 and params = tiny_params
      and cps = "[[PInt 0, PInt 0]]", THEN conjunct2, THEN conjunct2, THEN conjunct2, THEN conjunct2, THEN conjunct1] rejecting_prelude rej
    by blast
  have bo: "verify_openings tiny_modules tiny_params bad_proof 0 1
     = Inr (replicate 96 0, replicate 31 0 @ [1], 1)"
    by (simp add: bad_openings)
  note bad = verify_proof_true_or_raises [where M = tiny_modules and F = tiny_field
      and comp' = tiny_comp and steps = 2 and constants = "[[0, 0]]" and pr = bad_proof
      and constraint_degree = 2 and extension_factor = 2 and params = tiny_params
      and cps = "[[PInt 0, PInt 0]]" and j = 0 and e = AssertionError
      and ?k1.0 = "challenge tiny_modules (m_root bad_proof) 1"
      and ?k2.0 = "challenge tiny_modules (m_root bad_proof) 2"
      and ?k3.0 = "challenge tiny_modules (m_root bad_proof) 3"
      and ?k4.0 = "challenge tiny_modules (m_root bad_proof) 4"
      and i = 0 and pos = 1 and ?m1.0 = "replicate 96 0" and ?m2.0 = "replicate 31 0 @ [1]"
      and l = 1 and zv = 0 and kx = "[0]" and sp = 1 and zb = 0 and ip = "[0, 0]" and ix = 0]
  have c: "verify_proof_at_position tiny_modules tiny_field tiny_comp tiny_params bad_proof
     (verifier_challenges tiny_modules bad_proof) 0 1 [[PInt 0, PInt 0]] = Inl AssertionError"
    unfolding verifier_challenges_def
    using bad [THEN conjunct2, THEN conjunct2, THEN conjunct2, THEN conjunct2, THEN conjunct2, THEN conjunct2, THEN conjunct2, THEN conjunct2, THEN conjunct2] tiny_transition_inputs [OF bo] tiny_transition_residue
      tiny_boundary_inputs bad_position_premises
    by blast
  have d: "verify_proof_body tiny_modules tiny_field tiny_comp 2 [[0, 0]] bad_proof 2 2
     = Inl AssertionError"
    using bad [THEN conjunct2, THEN conjunct2, THEN conjunct2, THEN conjunct2, THEN conjunct2, THEN conjunct1] pre fri [of bad_proof] c by (simp add: tiny_positions)
  have t: "verify_openings tiny_modules tiny_params torn_proof 0 1 = Inl AssertionError"
    by (simp add: torn_openings)
  note torn = verify_proof_true_or_raises [where M = tiny_modules and F = tiny_field
      and comp' = tiny_comp and steps = 2 and constants = "[[0, 0]]" and pr = torn_proof
      and constraint_degree = 2 and extension_factor = 2 and params = tiny_params
      and cps = "[[PInt 0, PInt 0]]" and j = 0 and e = AssertionError
      and ?k1.0 = "challenge tiny_modules (m_root torn_proof) 1"
      and ?k2.0 = "challenge tiny_modules (m_root torn_proof) 2"
      and ?k3.0 = "challenge tiny_modules (m_root torn_proof) 3"
      and ?k4.0 = "challenge tiny_modules (m_root torn_proof) 4"
      and i = 0 and pos = 1 and e' = AssertionError]
  have t1: "verify_proof_at_position tiny_modules tiny_field tiny_comp tiny_params torn_proof
     (verifier_challenges tiny_modules torn_proof) 0 1 [[PInt 0, PInt 0]] = Inl AssertionError"
    unfolding verifier_challenges_def using torn [THEN conjunct2, THEN conjunct2, THEN conjunct2, THEN conjunct2, THEN conjunct2, THEN conjunct2, THEN conjunct2, THEN conjunct1] t by blast
  have f: "verify_proof_body tiny_modules tiny_field tiny_comp 2 [[0, 0]] torn_proof 2 2
     = Inl AssertionError"
    using torn [THEN conjunct2, THEN conjunct2, THEN conjunct2, THEN conjunct2, THEN conjunct2, THEN conjunct1] pre fri [of torn_proof] t1 by (simp add: tiny_positions)
  have g: "verify_proof_at_position tiny_modules tiny_field (tiny_comp\<lparr>c_step_fn := step_mimc\<rparr>)
     tiny_params tiny_proof (1, 2, 3, 4) 0 1 [[PInt 0, PInt 0]] = Inl AssertionError"
    using verify_proof_true_or_raises [where M = tiny_modules and F = tiny_field
      and comp' = "tiny_comp\<lparr>c_step_fn := step_mimc\<rparr>" and params = tiny_params
      and pr = tiny_proof and cps = "[[PInt 0, PInt 0]]" and ?k1.0 = 1 and ?k2.0 = 2 and ?k3.0 = 3
      and ?k4.0 = 4 and i = 0 and pos = 1 and ?m1.0 = "replicate 96 0"
      and ?m2.0 = "replicate 31 0 @ [1]" and l = 0 and zv = 0 and kx = "[0]" and sp = 0,
      THEN conjunct2, THEN conjunct2, THEN conjunct2, THEN conjunct2, THEN conjunct2, THEN conjunct2, THEN conjunct2, THEN conjunct2, THEN conjunct1]
      mimc_transition_inputs [OF tiny_openings [of 0], simplified] mimc_transition_residue
    by simp
  have h: "(8 :: int) \<noteq> 0 \<and> 2 ^ 32 div 8 < (2 ^ 32 :: int)"
    by simp
  have k: "verify_proof toy_modules toy_field (PInt 5) (2 ^ 32) [] (PInt 0) toy_proof
      step_plus_one 2 8 = Inl AssertionError"
    using verify_proof_true_or_raises [where M = toy_modules and F = toy_field
        and inp = "PInt 5" and steps = "2 ^ 32" and constants = "[]" and out = "PInt 0"
        and pr = toy_proof and step = step_plus_one and constraint_degree = 2
        and extension_factor = 8, THEN conjunct2, THEN conjunct1] h
    by blast
  show ?thesis
    using pre p0 a rej b bo c d t f g h k by blast
qed

subsection \<open>Lagrange interpolation\<close>

lemma poly_eval_Nil: "poly_eval [] x = 0"
  by (simp add: poly_eval_def)

lemma poly_eval_Cons: "poly_eval (c # p) x = c + x * poly_eval p x"
  by (simp add: poly_eval_def)

lemma upt_2: "[0..<2] = [0, 1]"
  by (simp add: upt_rec)

lemma upt_4: "[0..<4] = [0, 1, 2, 3]"
  by (simp add: upt_rec)

lemma li2:
  assumes "x0 \<noteq> x1"
  shows "\<exists>b. lagrange_interp_2 [x0, x1] [y0, y1] = Inr b \<and> poly_eval b x0 = y0 \<and> poly_eval b x1 = y1"
proof -
  define e0 where "e0 = x0 - x1"
  define e1 where "e1 = x1 - x0"
  define invall where "invall = 1 / (e0 * e1)"
  define b where "b = [- x1 * (y0 * invall * e1) + - x0 * (y1 * invall * e0),
                       1 * (y0 * invall * e1) + 1 * (y1 * invall * e0)]"
  have nz: "e0 * e1 \<noteq> 0" using assms by (simp add: e0_def e1_def)
  have inv: "invall * (e0 * e1) = 1" using nz by (simp add: invall_def)
  have ev0: "poly_eval [- x1, 1] x0 = e0" and ev1: "poly_eval [- x0, 1] x1 = e1"
    by (simp_all add: poly_eval_Cons poly_eval_Nil e0_def e1_def)
  have run: "lagrange_interp_2 [x0, x1] [y0, y1] = Inr b"
    using nz
    by (simp add: lagrange_interp_2_def get_def bind_err_def field_div_def Let_def ev0 ev1
        upt_2 b_def invall_def)
  have ev: "\<And>x. poly_eval b x = (x - x1) * y0 * (invall * e1) + (x - x0) * y1 * (invall * e0)"
    by (simp add: b_def poly_eval_Cons poly_eval_Nil algebra_simps)
  have "poly_eval b x0 = y0 * (invall * (e0 * e1))"
    by (simp add: ev e0_def [symmetric] mult_ac)
  moreover have "poly_eval b x1 = y1 * (invall * (e0 * e1))"
    by (simp add: ev e1_def [symmetric] mult_ac)
  ultimately show ?thesis using run inv by simp
qed


lemma li4:
  assumes "distinct [x0, x1, x2, x3]"
  shows "\<exists>b. lagrange_interp_4 [x0, x1, x2, x3] [y0, y1, y2, y3] = Inr b \<and>
           poly_eval b x0 = y0 \<and> poly_eval b x1 = y1 \<and> poly_eval b x2 = y2 \<and> poly_eval b x3 = y3"
proof -
  define eq0 where "eq0 = [- (x1 * x2) * x3, x1 * x2 + x1 * x3 + x2 * x3, - x1 - x2 - x3, 1]"
  define eq1 where "eq1 = [- (x0 * x2) * x3, x0 * x2 + x0 * x3 + x2 * x3, - x0 - x2 - x3, 1]"
  define eq2 where "eq2 = [- (x0 * x1) * x3, x0 * x1 + x0 * x3 + x1 * x3, - x0 - x1 - x3, 1]"
  define eq3 where "eq3 = [- (x0 * x1) * x2, x0 * x1 + x0 * x2 + x1 * x2, - x0 - x1 - x2, 1]"
  have f0: "\<And>x. poly_eval eq0 x = (x - x1) * (x - x2) * (x - x3)"
    by (simp add: eq0_def poly_eval_Cons poly_eval_Nil algebra_simps)
  have f1: "\<And>x. poly_eval eq1 x = (x - x0) * (x - x2) * (x - x3)"
    by (simp add: eq1_def poly_eval_Cons poly_eval_Nil algebra_simps)
  have f2: "\<And>x. poly_eval eq2 x = (x - x0) * (x - x1) * (x - x3)"
    by (simp add: eq2_def poly_eval_Cons poly_eval_Nil algebra_simps)
  have f3: "\<And>x. poly_eval eq3 x = (x - x0) * (x - x1) * (x - x2)"
    by (simp add: eq3_def poly_eval_Cons poly_eval_Nil algebra_simps)
  define e0 where "e0 = poly_eval eq0 x0"
  define e1 where "e1 = poly_eval eq1 x1"
  define e2 where "e2 = poly_eval eq2 x2"
  define e3 where "e3 = poly_eval eq3 x3"
  define invall where "invall = 1 / (e0 * e1 * (e2 * e3))"
  define i0 where "i0 = y0 * invall * e1 * (e2 * e3)"
  define i1 where "i1 = y1 * invall * e0 * (e2 * e3)"
  define i2 where "i2 = y2 * invall * (e0 * e1) * e3"
  define i3 where "i3 = y3 * invall * (e0 * e1) * e2"
  define b where "b = map (\<lambda>i. eq0 ! i * i0 + eq1 ! i * i1 + eq2 ! i * i2 + eq3 ! i * i3) [0..<4]"
  have nz: "e0 \<noteq> 0" "e1 \<noteq> 0" "e2 \<noteq> 0" "e3 \<noteq> 0"
    using assms by (auto simp: e0_def e1_def e2_def e3_def f0 f1 f2 f3)
  then have nzall: "e0 * e1 * (e2 * e3) \<noteq> 0"
    by simp
  have inv: "invall * (e0 * e1 * (e2 * e3)) = 1"
    using nzall by (simp add: invall_def)
  have run: "lagrange_interp_4 [x0, x1, x2, x3] [y0, y1, y2, y3] = Inr b"
    using nzall
    unfolding lagrange_interp_4_def Let_def
    by (simp add: get_def bind_err_def field_div_def b_def i0_def i1_def i2_def i3_def invall_def
        e0_def e1_def e2_def e3_def eq0_def eq1_def eq2_def eq3_def)
  have ev: "\<And>x. poly_eval b x
      = i0 * poly_eval eq0 x + i1 * poly_eval eq1 x + i2 * poly_eval eq2 x + i3 * poly_eval eq3 x"
    by (simp add: b_def upt_4 eq0_def eq1_def eq2_def eq3_def poly_eval_Cons poly_eval_Nil
        algebra_simps)
  have "poly_eval b x0 = i0 * e0"
    by (simp add: ev f1 f2 f3 e0_def)
  then have r0: "poly_eval b x0 = y0 * (invall * (e0 * e1 * (e2 * e3)))"
    by (simp add: i0_def mult_ac)
  have "poly_eval b x1 = i1 * e1"
    by (simp add: ev f0 f2 f3 e1_def)
  then have r1: "poly_eval b x1 = y1 * (invall * (e0 * e1 * (e2 * e3)))"
    by (simp add: i1_def mult_ac)
  have "poly_eval b x2 = i2 * e2"
    by (simp add: ev f0 f1 f3 e2_def)
  then have r2: "poly_eval b x2 = y2 * (invall * (e0 * e1 * (e2 * e3)))"
    by (simp add: i2_def mult_ac)
  have "poly_eval b x3 = i3 * e3"
    by (simp add: ev f0 f1 f2 e3_def)
  then have r3: "poly_eval b x3 = y3 * (invall * (e0 * e1 * (e2 * e3)))"
    by (simp add: i3_def mult_ac)
  show ?thesis
    using run r0 r1 r2 r3 inv by simp
qed

lemma inplace_Suc:
  "foldl (\<lambda>r j. r[j := r ! j - r ! Suc j * x]) (a # l) (map Suc js)
   = a # foldl (\<lambda>r j. r[j := r ! j - r ! Suc j * x]) l js"
  by (induction js arbitrary: l) simp_all

lemma inplace_shift_sub:
  "foldl (\<lambda>r j. r[j := r ! j - r ! Suc j * x]) (p # root) [0..<length root]
   = shift_sub p root x"
proof (induction root arbitrary: p)
  case Nil
  show ?case by simp
next
  case (Cons r rs)
  have "[0..<Suc (length rs)] = 0 # [Suc 0..<Suc (length rs)]"
    by (rule upt_conv_Cons) simp
  also have "\<dots> = 0 # map Suc [0..<length rs]"
    by (simp only: map_Suc_upt)
  finally have idx: "[0..<length (r # rs)] = 0 # map Suc [0..<length rs]"
    by simp
  show ?case
    unfolding idx using Cons.IH [of r] by (simp add: inplace_Suc)
qed

lemma zpoly_step_shift_sub: "zpoly_step root x = shift_sub 0 root x"
  using inplace_shift_sub [of x 0 root] by (simp add: zpoly_step_def)

lemma length_shift_sub: "length (shift_sub p rs x) = length rs + 1"
  by (induction rs arbitrary: p) simp_all

lemma poly_eval_shift_sub: "poly_eval (shift_sub p rs x) y = p + (y - x) * poly_eval rs y"
proof (induction rs arbitrary: p)
  case Nil
  show ?case by (simp add: poly_eval_Cons poly_eval_Nil)
next
  case (Cons r rs)
  have IH: "poly_eval (shift_sub r rs x) y = r + (y - x) * poly_eval rs y"
    by (rule Cons.IH)
  show ?case
    unfolding shift_sub.simps poly_eval_Cons IH by (simp add: algebra_simps)
qed

lemma zpoly_snoc: "zpoly (xs @ [a]) = zpoly_step (zpoly xs) a"
  by (simp add: zpoly_def)

lemma length_zpoly: "length (zpoly xs) = length xs + 1"
  by (induction xs rule: rev_induct)
     (simp_all add: zpoly_snoc zpoly_step_shift_sub length_shift_sub, simp add: zpoly_def)

lemma poly_eval_zpoly: "poly_eval (zpoly xs) y = prod_list (map (\<lambda>x. y - x) xs)"
proof (induction xs rule: rev_induct)
  case Nil
  show ?case by (simp add: zpoly_def poly_eval_Cons poly_eval_Nil)
next
  case (snoc a xs)
  then show ?case
    by (simp add: zpoly_snoc zpoly_step_shift_sub poly_eval_shift_sub mult.commute)
qed

lemma shift_sub_swap:
  "shift_sub p (shift_sub q h a) b = shift_sub (p + (a - b) * q) (shift_sub q h b) a"
proof (induction h arbitrary: p q)
  case Nil
  show ?case by (simp add: algebra_simps)
next
  case (Cons r rs)
  have "shift_sub (q - r * a) (shift_sub r rs a) b
        = shift_sub (q - r * a + (a - b) * r) (shift_sub r rs b) a"
    by (rule Cons.IH)
  moreover have "q - r * a + (a - b) * r = q - r * b"
    by (simp add: algebra_simps)
  ultimately show ?case by (simp add: algebra_simps)
qed

lemma zpoly_step_commute:
  "zpoly_step (zpoly_step h a) b = zpoly_step (zpoly_step h b) a"
  using shift_sub_swap [of 0 0 h a b] by (simp add: zpoly_step_shift_sub)

lemma zpoly_move_last: "zpoly (ys @ a # zs) = zpoly_step (zpoly (ys @ zs)) a"
proof (induction zs rule: rev_induct)
  case Nil
  show ?case using zpoly_snoc [of ys a] by simp
next
  case (snoc b zs)
  have "zpoly (ys @ a # zs @ [b]) = zpoly_step (zpoly (ys @ a # zs)) b"
    using zpoly_snoc [of "ys @ a # zs" b] by simp
  also have "\<dots> = zpoly_step (zpoly_step (zpoly (ys @ zs)) a) b"
    by (simp only: snoc.IH)
  also have "\<dots> = zpoly_step (zpoly_step (zpoly (ys @ zs)) b) a"
    by (rule zpoly_step_commute)
  also have "zpoly_step (zpoly (ys @ zs)) b = zpoly (ys @ zs @ [b])"
    using zpoly_snoc [of "ys @ zs" b] by simp
  finally show ?case by simp
qed

lemma zpoly_remove1:
  assumes "x \<in> set xs"
  shows "zpoly xs = zpoly_step (zpoly (remove1 x xs)) x"
proof -
  obtain ys zs where split: "xs = ys @ x # zs" and notin: "x \<notin> set ys"
    using split_list_first [OF assms] by blast
  have "remove1 x xs = ys @ zs"
    using split notin by (simp add: remove1_append)
  then show ?thesis using split zpoly_move_last [of ys x zs] by simp
qed

lemma poly_divmod_shift_sub:
  "poly_divmod (shift_sub p h a) [- a, 1] = Inr (h, [p])"
proof (induction h arbitrary: p)
  case Nil
  show ?case by simp
next
  case (Cons r rs)
  show ?case
    by (simp add: Cons.IH [of r] field_div_def Let_def)
qed

lemma poly_div_zpoly_step: "poly_div (zpoly_step h a) [- a, 1] = Inr h"
  by (simp add: poly_div_def zpoly_step_shift_sub poly_divmod_shift_sub)

lemma poly_div_root:
  "x \<in> set xs \<Longrightarrow> poly_div (zpoly xs) [- x, 1] = Inr (zpoly (remove1 x xs))"
  using zpoly_remove1 [of x xs] poly_div_zpoly_step [of "zpoly (remove1 x xs)" x] by simp


lemma nums_eq:
  "map_err (\<lambda>x. poly_div (zpoly xs) [- x, 1]) xs = Inr (map (\<lambda>x. zpoly (remove1 x xs)) xs)"
  by (rule map_err_Inr) (simp add: poly_div_root)

lemma num_at_other:
  assumes "x \<in> set xs" and "z \<in> set xs" and "z \<noteq> x"
  shows "poly_eval (zpoly (remove1 x xs)) z = 0"
proof -
  have "z \<in> set (remove1 x xs)" using assms by simp
  then have "(0::'a) \<in> set (map (\<lambda>u. z - u) (remove1 x xs))" by force
  then show ?thesis by (simp add: poly_eval_zpoly prod_list_zero_iff)
qed

lemma num_at_self:
  assumes "distinct xs" and "x \<in> set xs"
  shows "poly_eval (zpoly (remove1 x xs)) x \<noteq> 0"
proof -
  have "x \<notin> set (remove1 x xs)" using assms by simp
  then have "(0::'a) \<notin> set (map (\<lambda>u. x - u) (remove1 x xs))" by auto
  then show ?thesis by (simp add: poly_eval_zpoly prod_list_zero_iff)
qed

lemma length_num: "x \<in> set xs \<Longrightarrow> length (zpoly (remove1 x xs)) = length xs"
  by (simp add: length_zpoly length_remove1) (cases xs, simp_all)

lemma poly_eval_add_scaled_list:
  "length b = length nc \<Longrightarrow>
   poly_eval (map2 (\<lambda>bj c. bj + c * s) b nc) x = poly_eval b x + s * poly_eval nc x"
  by (induction b nc rule: list_induct2) (simp_all add: poly_eval_Nil poly_eval_Cons algebra_simps)

lemma add_scaled_general:
  assumes "distinct js" and "\<forall>j \<in> set js. j < length nc \<and> j < length b"
    and "y = 0 \<longrightarrow> yslice = 0"
  shows "\<exists>b'. add_scaled nc y yslice js b = Inr b' \<and> length b' = length b \<and>
           (\<forall>j < length b. b' ! j = (if j \<in> set js then b ! j + nc ! j * yslice else b ! j))"
  using assms(1,2)
proof (induction js arbitrary: b)
  case Nil
  then show ?case by simp
next
  case (Cons j js)
  define b1 where "b1 = (if nc ! j \<noteq> 0 \<and> y \<noteq> 0 then b[j := b ! j + nc ! j * yslice] else b)"
  have j: "j < length nc" "j < length b" using Cons.prems by simp_all
  have len1: "length b1 = length b" by (simp add: b1_def)
  have b1j: "b1 ! j = b ! j + nc ! j * yslice"
    using j assms(3) by (auto simp: b1_def)
  have b1o: "\<And>k. k \<noteq> j \<Longrightarrow> b1 ! k = b ! k"
    by (simp add: b1_def)
  have step: "add_scaled nc y yslice (j # js) b = add_scaled nc y yslice js b1"
    using j by (simp add: get_def b1_def)
  obtain b' where b': "add_scaled nc y yslice js b1 = Inr b'" "length b' = length b1"
      "\<forall>k < length b1. b' ! k = (if k \<in> set js then b1 ! k + nc ! k * yslice else b1 ! k)"
    using Cons.IH [of b1] Cons.prems len1 by auto
  have "\<forall>k < length b. b' ! k = (if k \<in> set (j # js) then b ! k + nc ! k * yslice else b ! k)"
  proof (intro allI impI)
    fix k assume k: "k < length b"
    show "b' ! k = (if k \<in> set (j # js) then b ! k + nc ! k * yslice else b ! k)"
    proof (cases "k = j")
      case True
      then have "k \<notin> set js" using Cons.prems(1) by simp
      then show ?thesis using b'(3) k len1 True b1j by simp
    next
      case False
      then show ?thesis using b'(3) k len1 b1o [of k] by simp
    qed
  qed
  then show ?case using step b'(1,2) len1 by simp
qed

lemma add_scaled_full:
  assumes "length nc = length b" and "y = 0 \<longrightarrow> yslice = 0"
  shows "add_scaled nc y yslice [0..<length b] b = Inr (map2 (\<lambda>bj c. bj + c * yslice) b nc)"
proof -
  obtain b' where b': "add_scaled nc y yslice [0..<length b] b = Inr b'" "length b' = length b"
      "\<forall>j < length b. b' ! j = (if j \<in> set [0..<length b] then b ! j + nc ! j * yslice else b ! j)"
    using add_scaled_general [of "[0..<length b]" nc b y yslice] assms by auto
  have "b' = map2 (\<lambda>bj c. bj + c * yslice) b nc"
    by (rule nth_equalityI) (use b' assms(1) in simp_all)
  then show ?thesis using b'(1) by simp
qed

lemma interp_loop_general:
  assumes "\<forall>i \<in> set idx. i < length ys \<and> i < length invdenoms \<and> i < length nums \<and>
             length (nums ! i) = length ys"
    and "length b = length ys"
  shows "\<exists>b'. interp_loop ys nums invdenoms idx b = Inr b' \<and> length b' = length ys \<and>
           (\<forall>x. poly_eval b' x = poly_eval b x +
              sum_list (map (\<lambda>i. ys ! i * invdenoms ! i * poly_eval (nums ! i) x) idx))"
  using assms
proof (induction idx arbitrary: b)
  case Nil
  then show ?case by simp
next
  case (Cons i idx)
  define yslice where "yslice = ys ! i * invdenoms ! i"
  define b1 where "b1 = map2 (\<lambda>bj c. bj + c * yslice) b (nums ! i)"
  have i: "i < length ys" "i < length invdenoms" "i < length nums" "length (nums ! i) = length ys"
    using Cons.prems(1) by simp_all
  have inner: "add_scaled (nums ! i) (ys ! i) yslice [0..<length ys] b = Inr b1"
    using add_scaled_full [of "nums ! i" b "ys ! i" yslice] i(4) Cons.prems(2)
    by (simp add: b1_def yslice_def)
  have step: "interp_loop ys nums invdenoms (i # idx) b = interp_loop ys nums invdenoms idx b1"
    using i inner by (simp add: get_def bind_err_def Let_def yslice_def)
  have len1: "length b1 = length ys"
    using i(4) Cons.prems(2) by (simp add: b1_def)
  have ev1: "\<And>x. poly_eval b1 x = poly_eval b x + yslice * poly_eval (nums ! i) x"
    unfolding b1_def using i(4) Cons.prems(2) by (simp add: poly_eval_add_scaled_list)
  obtain b' where b': "interp_loop ys nums invdenoms idx b1 = Inr b'" "length b' = length ys"
      "\<forall>x. poly_eval b' x = poly_eval b1 x +
              sum_list (map (\<lambda>i. ys ! i * invdenoms ! i * poly_eval (nums ! i) x) idx)"
    using Cons.IH [of b1] Cons.prems(1) len1 by auto
  have "\<forall>x. poly_eval b' x = poly_eval b x +
              sum_list (map (\<lambda>i. ys ! i * invdenoms ! i * poly_eval (nums ! i) x) (i # idx))"
    using b'(3) ev1 by (simp add: yslice_def algebra_simps)
  then show ?case using step b'(1,2) by simp
qed

lemma poly_eval_zeros: "poly_eval (replicate n 0) x = 0"
  by (induction n) (simp_all add: poly_eval_Nil poly_eval_Cons)


lemma sum_list_single:
  assumes "k < n" and "\<And>i. i < n \<Longrightarrow> i \<noteq> k \<Longrightarrow> f i = (0::'a::field)"
  shows "sum_list (map f [0..<n]) = f k"
proof -
  have "sum_list (map f [0..<n]) = sum f {0..<n}"
    by (simp add: interv_sum_list_conv_sum_set_nat)
  also have "\<dots> = sum (\<lambda>i. if i = k then f k else 0) {0..<n}"
    by (rule sum.cong) (use assms(2) in auto)
  also have "\<dots> = f k"
    using assms(1) by simp
  finally show ?thesis .
qed

lemma lagrange_interp_correct:
  assumes "distinct xs" and "length ys = length xs"
  shows "\<exists>b. lagrange_interp xs ys = Inr b \<and> (\<forall>k < length xs. poly_eval b (xs ! k) = ys ! k)"
proof -
  define n where "n = length xs"
  define nums where "nums = map (\<lambda>x. zpoly (remove1 x xs)) xs"
  define denoms where "denoms = map (\<lambda>i. poly_eval (nums ! i) (xs ! i)) [0..<length xs]"
  define invdenoms where "invdenoms = map (\<lambda>v. if v = 0 then 0 else inverse v) denoms"
  have num_i: "\<And>i. i < n \<Longrightarrow> nums ! i = zpoly (remove1 (xs ! i) xs)"
    by (simp add: nums_def n_def)
  have den_i: "\<And>i. i < n \<Longrightarrow> denoms ! i = poly_eval (nums ! i) (xs ! i)"
    by (simp add: denoms_def n_def)
  have den_nz: "\<And>i. i < n \<Longrightarrow> denoms ! i \<noteq> 0"
    using num_at_self [OF assms(1)] by (simp add: den_i num_i n_def)
  have inv_i: "\<And>i. i < n \<Longrightarrow> invdenoms ! i = inverse (denoms ! i)"
    using den_nz by (simp add: invdenoms_def denoms_def n_def)
  have pre: "\<forall>i \<in> set [0..<length xs]. i < length ys \<and> i < length invdenoms \<and> i < length nums \<and>
             length (nums ! i) = length ys"
    using assms(2) by (simp add: invdenoms_def denoms_def nums_def length_num)
  obtain b where b: "interp_loop ys nums invdenoms [0..<length xs] (replicate (length ys) 0) = Inr b"
      and ev: "\<forall>x. poly_eval b x = poly_eval (replicate (length ys) 0) x +
              sum_list (map (\<lambda>i. ys ! i * invdenoms ! i * poly_eval (nums ! i) x) [0..<length xs])"
    using interp_loop_general [OF pre, of "replicate (length ys) 0"] by auto
  have mi: "multi_inv denoms = Inr invdenoms"
    by (simp add: multi_inv_result invdenoms_def)
  have "lagrange_interp xs ys =
      bind_err (multi_inv denoms) (\<lambda>invdenoms.
        interp_loop ys nums invdenoms [0..<length xs] (replicate (length ys) 0))"
    unfolding lagrange_interp_def Let_def denoms_def nums_def
    using assms(2) by (simp add: length_zpoly assert_that_def bind_err_def nums_eq)
  then have run: "lagrange_interp xs ys = Inr b"
    using mi b by (simp add: bind_err_def)
  have "\<forall>k < length xs. poly_eval b (xs ! k) = ys ! k"
  proof (intro allI impI)
    fix k assume k: "k < length xs"
    have other: "\<And>i. i < length xs \<Longrightarrow> i \<noteq> k \<Longrightarrow>
        ys ! i * invdenoms ! i * poly_eval (nums ! i) (xs ! k) = 0"
    proof -
      fix i assume i: "i < length xs" "i \<noteq> k"
      have "xs ! k \<noteq> xs ! i"
        using assms(1) i k by (simp add: nth_eq_iff_index_eq)
      then have "poly_eval (nums ! i) (xs ! k) = 0"
        using num_at_other [of "xs ! i" xs "xs ! k"] i k by (simp add: num_i n_def)
      then show "ys ! i * invdenoms ! i * poly_eval (nums ! i) (xs ! k) = 0"
        by simp
    qed
    have "poly_eval b (xs ! k)
        = sum_list (map (\<lambda>i. ys ! i * invdenoms ! i * poly_eval (nums ! i) (xs ! k)) [0..<length xs])"
      using ev by (simp add: poly_eval_zeros)
    also have "\<dots> = ys ! k * invdenoms ! k * poly_eval (nums ! k) (xs ! k)"
      by (rule sum_list_single [OF k]) (rule other)
    also have "\<dots> = ys ! k"
      using k den_nz [of k] by (simp add: inv_i den_i [symmetric] n_def)
    finally show "poly_eval b (xs ! k) = ys ! k" .
  qed
  then show ?thesis using run by blast
qed

text \<open>
  Claim C8. For pairwise distinct \<open>xs\<close> and \<open>ys\<close> of the same length, \<open>lagrange_interp\<close>
  returns a polynomial whose value at \<open>x_i\<close> is \<open>y_i\<close> for every \<open>i\<close>; so do
  \<open>lagrange_interp_2\<close> on two points and \<open>lagrange_interp_4\<close> on four.
\<close>

theorem lagrange_interpolates:
  assumes "distinct xs" and "length ys = length xs"
  shows "(\<exists>b. lagrange_interp xs ys = Inr b \<and> (\<forall>k < length xs. poly_eval b (xs ! k) = ys ! k)) \<and>
         (length xs = 2 \<longrightarrow>
            (\<exists>b. lagrange_interp_2 xs ys = Inr b \<and> (\<forall>k < length xs. poly_eval b (xs ! k) = ys ! k))) \<and>
         (length xs = 4 \<longrightarrow>
            (\<exists>b. lagrange_interp_4 xs ys = Inr b \<and> (\<forall>k < length xs. poly_eval b (xs ! k) = ys ! k)))"
proof (intro conjI impI)
  show "\<exists>b. lagrange_interp xs ys = Inr b \<and> (\<forall>k < length xs. poly_eval b (xs ! k) = ys ! k)"
    by (rule lagrange_interp_correct [OF assms])
next
  assume len: "length xs = 2"
  then obtain x0 x1 where xs: "xs = [x0, x1]"
    by (auto simp: length_Suc_conv numeral_2_eq_2)
  obtain y0 y1 where ys: "ys = [y0, y1]"
    using assms(2) len by (auto simp: length_Suc_conv numeral_2_eq_2)
  have "x0 \<noteq> x1" using assms(1) xs by simp
  then obtain b where b: "lagrange_interp_2 [x0, x1] [y0, y1] = Inr b"
      "poly_eval b x0 = y0" "poly_eval b x1 = y1"
    using li2 [of x0 x1 y0 y1] by blast
  have "\<forall>k < length xs. poly_eval b (xs ! k) = ys ! k"
    using b(2,3) by (simp add: xs ys less_Suc_eq numeral_2_eq_2)
  then show "\<exists>b. lagrange_interp_2 xs ys = Inr b \<and> (\<forall>k < length xs. poly_eval b (xs ! k) = ys ! k)"
    using b(1) xs ys by blast
next
  assume len: "length xs = 4"
  then obtain x0 x1 x2 x3 where xs: "xs = [x0, x1, x2, x3]"
    by (auto simp: length_Suc_conv numeral_eq_Suc)
  obtain y0 y1 y2 y3 where ys: "ys = [y0, y1, y2, y3]"
    using assms(2) len by (auto simp: length_Suc_conv numeral_eq_Suc)
  have "distinct [x0, x1, x2, x3]" using assms(1) xs by simp
  then obtain b where b: "lagrange_interp_4 [x0, x1, x2, x3] [y0, y1, y2, y3] = Inr b"
      "poly_eval b x0 = y0" "poly_eval b x1 = y1" "poly_eval b x2 = y2" "poly_eval b x3 = y3"
    using li4 [of x0 x1 x2 x3 y0 y1 y2 y3] by blast
  have "\<forall>k < length xs. poly_eval b (xs ! k) = ys ! k"
    using b(2-5) by (auto simp add: xs ys less_Suc_eq)
  then show "\<exists>b. lagrange_interp_4 xs ys = Inr b \<and> (\<forall>k < length xs. poly_eval b (xs ! k) = ys ! k)"
    using b(1) xs ys by blast
qed

lemma four_mod7: "(4::mod7) = 1 + 1 + 1 + 1"
  by simp

lemma nz2: "(2::mod7) \<noteq> 0"
  unfolding two_mod7 by transfer simp

lemma ne_by_diff: "b - a = d \<Longrightarrow> d \<noteq> 0 \<Longrightarrow> a \<noteq> (b::mod7)"
  by auto

lemma distinct_1234: "distinct [1, 2, 3, 4 :: mod7]"
proof -
  have "(1::mod7) \<noteq> 2" by (rule ne_by_diff [of 2 1 1]) simp_all
  moreover have "(1::mod7) \<noteq> 3" by (rule ne_by_diff [of 3 1 2]) (simp_all add: nz2)
  moreover have "(1::mod7) \<noteq> 4" by (rule ne_by_diff [of 4 1 3]) (simp_all add: nz3)
  moreover have "(2::mod7) \<noteq> 3" by (rule ne_by_diff [of 3 2 1]) simp_all
  moreover have "(2::mod7) \<noteq> 4" by (rule ne_by_diff [of 4 2 2]) (simp_all add: nz2)
  moreover have "(3::mod7) \<noteq> 4" by (rule ne_by_diff [of 4 3 1]) simp_all
  ultimately show ?thesis by simp
qed

lemma distinct_35: "distinct [3, 5 :: mod7]"
proof -
  have "(3::mod7) \<noteq> 5" by (rule ne_by_diff [of 5 3 2]) (simp_all add: nz2)
  then show ?thesis by simp
qed

theorem lagrange_interpolates_witness:
  "distinct [1, 2, 3, 4 :: mod7] \<and> length [2, 0, 6, 1 :: mod7] = length [1, 2, 3, 4 :: mod7] \<and>
   (\<exists>b. lagrange_interp [1, 2, 3, 4 :: mod7] [2, 0, 6, 1] = Inr b \<and>
         poly_eval b 1 = 2 \<and> poly_eval b 2 = 0 \<and> poly_eval b 3 = 6 \<and> poly_eval b 4 = 1) \<and>
   (\<exists>b. lagrange_interp_4 [1, 2, 3, 4 :: mod7] [2, 0, 6, 1] = Inr b \<and>
         poly_eval b 1 = 2 \<and> poly_eval b 2 = 0 \<and> poly_eval b 3 = 6 \<and> poly_eval b 4 = 1) \<and>
   distinct [3, 5 :: mod7] \<and> length [1, 4 :: mod7] = length [3, 5 :: mod7] \<and>
   (\<exists>b. lagrange_interp_2 [3, 5 :: mod7] [1, 4] = Inr b \<and> poly_eval b 3 = 1 \<and> poly_eval b 5 = 4)"
proof -
  have l4: "length [2, 0, 6, 1 :: mod7] = length [1, 2, 3, 4 :: mod7]"
    by simp
  have l2: "length [1, 4 :: mod7] = length [3, 5 :: mod7]"
    by simp
  note four = lagrange_interpolates [OF distinct_1234 l4]
  note two = lagrange_interpolates [OF distinct_35 l2]
  obtain b where b: "lagrange_interp [1, 2, 3, 4 :: mod7] [2, 0, 6, 1] = Inr b"
      "\<forall>k < length [1, 2, 3, 4 :: mod7]. poly_eval b ([1, 2, 3, 4] ! k) = [2, 0, 6, 1] ! k"
    using four by blast
  have gen: "poly_eval b 1 = 2 \<and> poly_eval b 2 = 0 \<and> poly_eval b 3 = 6 \<and> poly_eval b 4 = 1"
    using b(2) [rule_format, of 0] b(2) [rule_format, of 1] b(2) [rule_format, of 2]
      b(2) [rule_format, of 3] by simp
  obtain c where c: "lagrange_interp_4 [1, 2, 3, 4 :: mod7] [2, 0, 6, 1] = Inr c"
      "\<forall>k < length [1, 2, 3, 4 :: mod7]. poly_eval c ([1, 2, 3, 4] ! k) = [2, 0, 6, 1] ! k"
    using four by auto
  have opt4: "poly_eval c 1 = 2 \<and> poly_eval c 2 = 0 \<and> poly_eval c 3 = 6 \<and> poly_eval c 4 = 1"
    using c(2) [rule_format, of 0] c(2) [rule_format, of 1] c(2) [rule_format, of 2]
      c(2) [rule_format, of 3] by simp
  obtain d where d: "lagrange_interp_2 [3, 5 :: mod7] [1, 4] = Inr d"
      "\<forall>k < length [3, 5 :: mod7]. poly_eval d ([3, 5] ! k) = [1, 4] ! k"
    using two by auto
  have opt2: "poly_eval d 3 = 1 \<and> poly_eval d 5 = 4"
    using d(2) [rule_format, of 0] d(2) [rule_format, of 1] by simp
  show ?thesis
    using distinct_1234 distinct_35 l4 l2 b(1) gen c(1) opt4 d(1) opt2 by blast
qed

end
